theory Spec2Isabelle
  imports Complex_Main
begin

section \<open>PyDetectionDNN: decoding detection tensors, suppression, and the frame cycle\<close>

text \<open>
  A shallow embedding of \<^verbatim>\<open>src/Modules/PyDetectionDNN/PyDetectionDNN.py\<close>:
  the three decoding branches of \<^verbatim>\<open>postprocess\<close>, its suppression and drawing loop,
  and \<^verbatim>\<open>process\<close>.

  Numbers. The network's tensors hold floats. An entry is represented by the real
  number it denotes, so the model covers finite entries only (no NaN, no infinity).
  The code compares entries (\<^verbatim>\<open>confidence > self.confThreshold\<close>), multiplies an
  entry by a frame dimension and truncates with \<^verbatim>\<open>int(...)\<close>; these are modelled by
  the order of the reals, exact multiplication and truncation toward zero.
  Python's integers are unbounded: \<^typ>\<open>int\<close>.
\<close>

subsection \<open>Values, errors and Python's \<^verbatim>\<open>int()\<close>\<close>

type_synonym row = "real list"

text \<open>
  A tensor is the sequence of detection rows the loops iterate over: \<^verbatim>\<open>out[0, 0]\<close> of a
  \<^verbatim>\<open>1x1xNx7\<close> blob in the first two branches, \<^verbatim>\<open>out\<close> itself (\<^verbatim>\<open>NxC\<close>) in the third.
\<close>

type_synonym tensor = "row list"

datatype py_error = IndexError | ValueError | AssertionError | NameError string

text \<open>\<^verbatim>\<open>int(x)\<close> of a float truncates toward zero.\<close>

definition py_int :: "real \<Rightarrow> int" where
  "py_int x = (if 0 \<le> x then \<lfloor>x\<rfloor> else \<lceil>x\<rceil>)"

text \<open>
  A box is the list \<^verbatim>\<open>[left, top, width, height]\<close> appended to \<^verbatim>\<open>boxes\<close>; the fields are
  prefixed because \<open>top\<close> is a constant of the library.
\<close>

record box =
  box_left :: int
  box_top :: int
  box_width :: int
  box_height :: int

text \<open>The three parallel lists \<^verbatim>\<open>classIds\<close>, \<^verbatim>\<open>confidences\<close>, \<^verbatim>\<open>boxes\<close> of \<^verbatim>\<open>postprocess\<close>.\<close>

record detections =
  classIds :: "int list"
  confidences :: "real list"
  boxes :: "box list"

definition no_detections :: detections where
  "no_detections = \<lparr>classIds = [], confidences = [], boxes = []\<rparr>"

text \<open>The three \<^verbatim>\<open>append\<close> calls that end each branch's loop body.\<close>

definition append_detection :: "detections \<Rightarrow> int \<times> real \<times> box \<Rightarrow> detections" where
  "append_detection acc c =
     (case c of (classId, confidence, b) \<Rightarrow>
        \<lparr>classIds = classIds acc @ [classId],
         confidences = confidences acc @ [confidence],
         boxes = boxes acc @ [b]\<rparr>)"

subsection \<open>The object: thresholds, input size, class names, and what the network reports\<close>

text \<open>
  \<open>im_info\<close> is the test \<^verbatim>\<open>self.net.getLayer(0).outputNameToIndex('im_info') != -1\<close>,
  \<open>lastLayer_type\<close> is \<^verbatim>\<open>lastLayer.type\<close>; both are answers of the loaded network, taken
  as given. \<open>classes\<close> is \<^verbatim>\<open>self.classes\<close> (\<^verbatim>\<open>None\<close> or a list of names).
\<close>

record detector =
  confThreshold :: real
  nmsThreshold :: real
  inpWidth :: nat
  inpHeight :: nat
  classes :: "string list option"
  im_info :: bool
  lastLayer_type :: string

text \<open>\<^verbatim>\<open>frame.shape[0]\<close> and \<^verbatim>\<open>frame.shape[1]\<close>; the pixels are not modelled.\<close>

record frame =
  frame_height :: nat
  frame_width :: nat

subsection \<open>The loop bodies of the three branches\<close>

text \<open>
  Each function is one iteration of the inner \<^verbatim>\<open>for detection in ...\<close> loop: it raises
  (\<open>Inl\<close>), appends nothing (\<open>Inr None\<close>) or appends one detection (\<open>Inr (Some _)\<close>).
  Indexing a row beyond its length raises \<^verbatim>\<open>IndexError\<close>.
\<close>

text \<open>Lines 133-145: the network has an \<^verbatim>\<open>im_info\<close> input (Faster-RCNN or R-FCN).\<close>

definition rcnn_detection :: "real \<Rightarrow> row \<Rightarrow> py_error + (int \<times> real \<times> box) option" where
  "rcnn_detection thr detection =
     (if length detection \<le> 2 then Inl IndexError
      else
        let confidence = detection ! 2 in
        if confidence > thr then
          (if length detection \<le> 6 then Inl IndexError
           else
             let left = py_int (detection ! 3);
                 top' = py_int (detection ! 4);
                 right = py_int (detection ! 5);
                 bottom = py_int (detection ! 6);
                 width = right - left + 1;
                 height = bottom - top' + 1
             in Inr (Some (py_int (detection ! 1) - 1, confidence,
                  \<lparr>box_left = left, box_top = top', box_width = width, box_height = height\<rparr>)))
        else Inr None)"

text \<open>Lines 150-162: the last layer is of type \<^verbatim>\<open>DetectionOutput\<close>.\<close>

definition ssd_detection :: "nat \<Rightarrow> nat \<Rightarrow> real \<Rightarrow> row \<Rightarrow> py_error + (int \<times> real \<times> box) option" where
  "ssd_detection frameWidth frameHeight thr detection =
     (if length detection \<le> 2 then Inl IndexError
      else
        let confidence = detection ! 2 in
        if confidence > thr then
          (if length detection \<le> 6 then Inl IndexError
           else
             let left = py_int (detection ! 3 * real frameWidth);
                 top' = py_int (detection ! 4 * real frameHeight);
                 right = py_int (detection ! 5 * real frameWidth);
                 bottom = py_int (detection ! 6 * real frameHeight);
                 width = right - left + 1;
                 height = bottom - top' + 1
             in Inr (Some (py_int (detection ! 1) - 1, confidence,
                  \<lparr>box_left = left, box_top = top', box_width = width, box_height = height\<rparr>)))
        else Inr None)"

text \<open>
  \<^verbatim>\<open>np.argmax\<close> of a one-dimensional array: the index of the first occurrence of the
  maximum. (On an empty array it raises \<^verbatim>\<open>ValueError\<close>; the caller below tests that.)
\<close>

fun argmax :: "real list \<Rightarrow> nat" where
  "argmax [] = 0"
| "argmax [x] = 0"
| "argmax (x # y # ys) = (let j = argmax (y # ys) in if (y # ys) ! j \<le> x then 0 else Suc j)"

text \<open>
  Lines 170-184: the last layer is of type \<^verbatim>\<open>Region\<close>. The scores are \<^verbatim>\<open>detection[5:]\<close>
  (the entry at index 4 is not read); \<^verbatim>\<open>width / 2\<close> is Python 3's true division.
\<close>

definition region_detection :: "nat \<Rightarrow> nat \<Rightarrow> real \<Rightarrow> row \<Rightarrow> py_error + (int \<times> real \<times> box) option" where
  "region_detection frameWidth frameHeight thr detection =
     (let scores = drop 5 detection in
      if scores = [] then Inl ValueError
      else
        let classId = argmax scores;
            confidence = scores ! classId in
        if confidence > thr then
          (let center_x = py_int (detection ! 0 * real frameWidth);
               center_y = py_int (detection ! 1 * real frameHeight);
               width = py_int (detection ! 2 * real frameWidth);
               height = py_int (detection ! 3 * real frameHeight);
               left = py_int (real_of_int center_x - real_of_int width / 2);
               top' = py_int (real_of_int center_y - real_of_int height / 2)
           in Inr (Some (int classId, confidence,
                \<lparr>box_left = left, box_top = top', box_width = width, box_height = height\<rparr>)))
        else Inr None)"

subsection \<open>The loops\<close>

text \<open>
  The inner loop over the rows of one tensor and the outer loop \<^verbatim>\<open>for out in outs\<close>; an
  exception in the body ends both.
\<close>

fun decode_rows ::
  "(row \<Rightarrow> py_error + (int \<times> real \<times> box) option) \<Rightarrow> row list \<Rightarrow> detections \<Rightarrow> py_error + detections" where
  "decode_rows f [] acc = Inr acc"
| "decode_rows f (detection # rest) acc =
     (case f detection of
        Inl e \<Rightarrow> Inl e
      | Inr None \<Rightarrow> decode_rows f rest acc
      | Inr (Some c) \<Rightarrow> decode_rows f rest (append_detection acc c))"

fun decode_outs ::
  "(row \<Rightarrow> py_error + (int \<times> real \<times> box) option) \<Rightarrow> tensor list \<Rightarrow> detections \<Rightarrow> py_error + detections" where
  "decode_outs f [] acc = Inr acc"
| "decode_outs f (out # outs) acc =
     (case decode_rows f out acc of
        Inl e \<Rightarrow> Inl e
      | Inr acc' \<Rightarrow> decode_outs f outs acc')"

text \<open>
  Lines 126-187 of \<^verbatim>\<open>postprocess\<close>: the choice of the branch. \<open>Inr None\<close> is the \<^verbatim>\<open>else\<close>
  branch, which decodes nothing.
\<close>

definition decode :: "detector \<Rightarrow> frame \<Rightarrow> tensor list \<Rightarrow> py_error + detections option" where
  "decode self fr outs =
     (let frameHeight = frame_height fr;
          frameWidth = frame_width fr in
      if im_info self then
        map_sum id Some (decode_outs (rcnn_detection (confThreshold self)) outs no_detections)
      else if lastLayer_type self = ''DetectionOutput'' then
        map_sum id Some
          (decode_outs (ssd_detection frameWidth frameHeight (confThreshold self)) outs no_detections)
      else if lastLayer_type self = ''Region'' then
        map_sum id Some
          (decode_outs (region_detection frameWidth frameHeight (confThreshold self)) outs no_detections)
      else Inr None)"

subsection \<open>Non-maximum suppression\<close>

text \<open>
  \<^verbatim>\<open>cv.dnn.NMSBoxes\<close>, called on line 189, is a function of the OpenCV library; its code
  is not among the sources. The definitions of this subsection follow section 4.5 of
  the specification: intersection over union, a stable sort by descending confidence,
  and one greedy pass in that order.
\<close>

text \<open>
  Modelled from the spec: the area of a rectangle, missing with OpenCV's overlap
  measure. A box without a positive width and height has area 0 (\<open>zero-area
  rectangles\<close>).
\<close>

definition area :: "box \<Rightarrow> int" where
  "area b = (if box_width b \<le> 0 \<or> box_height b \<le> 0 then 0 else box_width b * box_height b)"

text \<open>
  Modelled from the spec: the area of the intersection of two rectangles, missing with
  OpenCV's overlap measure (\<open>standard rectangle intersection area\<close>).
\<close>

definition intersection_area :: "box \<Rightarrow> box \<Rightarrow> int" where
  "intersection_area a b =
     (let w = min (box_left a + box_width a) (box_left b + box_width b) - max (box_left a) (box_left b);
          h = min (box_top a + box_height a) (box_top b + box_height b) - max (box_top a) (box_top b)
      in if w \<le> 0 \<or> h \<le> 0 then 0 else w * h)"

text \<open>
  Modelled from the spec: the overlap measure of \<^verbatim>\<open>cv.dnn.NMSBoxes\<close>, which is missing:
  \<open>standard rectangle intersection area divided by union area; zero-area rectangles
  yield IoU 0 against anything\<close>.
\<close>

definition iou :: "box \<Rightarrow> box \<Rightarrow> real" where
  "iou a b =
     (if area a = 0 \<or> area b = 0 then 0
      else real_of_int (intersection_area a b)
           / real_of_int (area a + area b - intersection_area a b))"

text \<open>
  Modelled from the spec: the suppression test of \<^verbatim>\<open>cv.dnn.NMSBoxes\<close>, which is missing:
  candidate \<open>i\<close> is suppressed by the kept candidate \<open>k\<close> \<open>if IoU >= t\<close>.
\<close>

definition overlaps :: "box list \<Rightarrow> real \<Rightarrow> nat \<Rightarrow> nat \<Rightarrow> bool" where
  "overlaps bs t i k = (t \<le> iou (bs ! i) (bs ! k))"

text \<open>
  Modelled from the spec: the greedy pass of \<^verbatim>\<open>cv.dnn.NMSBoxes\<close>, which is missing.
  \<open>Iterate in that order; maintain a kept list. For each candidate, compute IoU against
  every already-kept box; if IoU >= t against any kept box, suppress (discard) the
  candidate; otherwise keep it, appending to the kept list.\<close>
\<close>

fun greedy :: "(nat \<Rightarrow> nat \<Rightarrow> bool) \<Rightarrow> nat list \<Rightarrow> nat list \<Rightarrow> nat list" where
  "greedy ov kept [] = kept"
| "greedy ov kept (i # order) =
     (if list_ex (ov i) kept then greedy ov kept order
      else greedy ov (kept @ [i]) order)"

text \<open>
  Modelled from the spec: the sort of \<^verbatim>\<open>cv.dnn.NMSBoxes\<close>, which is missing. \<open>Sort
  candidates by confidence descending (stable sort; ties preserve original emission
  order).\<close> The candidates are given by their indices \<open>0, ..., n - 1\<close>; \<open>sort_key\<close> is
  insertion sort, which is stable.
\<close>

definition confidence_order :: "real list \<Rightarrow> nat \<Rightarrow> nat list" where
  "confidence_order scores n = sort_key (\<lambda>i. - (scores ! i)) [0..<n]"

text \<open>
  Modelled from the spec: \<^verbatim>\<open>cv.dnn.NMSBoxes\<close>, which is missing, as the call
  \<^verbatim>\<open>cv.dnn.NMSBoxes(boxes, confidences, self.confThreshold, self.nmsThreshold)\<close> uses it.
  The candidates are the pairs of the two parallel lists; the result is the list of the
  kept candidates' indices, in the order they were kept, as the loop on lines 190-197
  reads it. The specification's engine takes the candidates and the suppression
  threshold only (the decoders have applied the confidence threshold), so the third
  argument is not used.
\<close>

definition NMSBoxes :: "box list \<Rightarrow> real list \<Rightarrow> real \<Rightarrow> real \<Rightarrow> nat list" where
  "NMSBoxes bs scores score_threshold nms_threshold =
     greedy (overlaps bs nms_threshold) []
       (confidence_order scores (min (length bs) (length scores)))"

text \<open>
  Modelled from the spec: the output of the engine as the specification has it, \<open>the
  kept list, in the order boxes were kept\<close>: the kept candidates themselves, as two
  parallel lists.
\<close>

definition survivors :: "box list \<Rightarrow> real list \<Rightarrow> real \<Rightarrow> real \<Rightarrow> box list \<times> real list" where
  "survivors bs scores score_threshold nms_threshold =
     (let kept = NMSBoxes bs scores score_threshold nms_threshold
      in (map ((!) bs) kept, map ((!) scores) kept))"

subsection \<open>Drawing\<close>

text \<open>
  What \<^verbatim>\<open>drawPred\<close> puts on the frame: the rectangle \<^verbatim>\<open>(left, top), (right, bottom)\<close> and a
  label made of the class name, when \<^verbatim>\<open>self.classes\<close> is a non-empty list, and of
  \<^verbatim>\<open>conf * 100\<close>. The assertion \<^verbatim>\<open>classId < len(self.classes)\<close> and Python's indexing
  (a negative index counts from the end) are modelled; the text layout is OpenCV's.
\<close>

record drawing =
  rect :: "int \<times> int \<times> int \<times> int"
  label_name :: "string option"
  label_percent :: real

definition drawPred ::
  "string list option \<Rightarrow> int \<Rightarrow> real \<Rightarrow> int \<Rightarrow> int \<Rightarrow> int \<Rightarrow> int \<Rightarrow> py_error + drawing" where
  "drawPred names classId conf left top' right bottom =
     (let unnamed = \<lparr>rect = (left, top', right, bottom), label_name = None,
                      label_percent = conf * 100\<rparr>
      in case names of
           None \<Rightarrow> Inr unnamed
         | Some cs \<Rightarrow>
             if cs = [] then Inr unnamed
             else if \<not> classId < int (length cs) then Inl AssertionError
             else if classId < - int (length cs) then Inl IndexError
             else Inr (unnamed\<lparr>label_name :=
                    Some (cs ! nat (if classId < 0 then classId + int (length cs) else classId))\<rparr>))"

text \<open>Lines 190-197: the loop over the indices that suppression returned.\<close>

fun draw_all :: "detector \<Rightarrow> detections \<Rightarrow> nat list \<Rightarrow> drawing list \<Rightarrow> py_error + drawing list" where
  "draw_all self dets [] painted = Inr painted"
| "draw_all self dets (i # indices) painted =
     (let b = boxes dets ! i;
          left = box_left b;
          top' = box_top b;
          width = box_width b;
          height = box_height b
      in case drawPred (classes self) (classIds dets ! i) (confidences dets ! i)
                left top' (left + width) (top' + height) of
           Inl e \<Rightarrow> Inl e
         | Inr d \<Rightarrow> draw_all self dets indices (painted @ [d]))"

subsection \<open>\<^verbatim>\<open>postprocess\<close> and \<^verbatim>\<open>process\<close>\<close>

text \<open>
  The effects of \<^verbatim>\<open>postprocess\<close> on one frame: the messages given to \<^verbatim>\<open>jevois.LERROR\<close>
  and the predictions drawn, in order.
\<close>

record post =
  logged :: "string list"
  drawn :: "drawing list"

definition postprocess :: "detector \<Rightarrow> frame \<Rightarrow> tensor list \<Rightarrow> py_error + post" where
  "postprocess self fr outs =
     (case decode self fr outs of
        Inl e \<Rightarrow> Inl e
      | Inr None \<Rightarrow>
          Inr \<lparr>logged = [''Unknown output layer type: '' @ lastLayer_type self], drawn = []\<rparr>
      | Inr (Some dets) \<Rightarrow>
          (let indices = NMSBoxes (boxes dets) (confidences dets)
                           (confThreshold self) (nmsThreshold self)
           in case draw_all self dets indices [] of
                Inl e \<Rightarrow> Inl e
              | Inr painted \<Rightarrow> Inr \<lparr>logged = [], drawn = painted\<rparr>))"

text \<open>
  Name resolution in \<^verbatim>\<open>process\<close>. A name that the function never assigns is looked up in
  the module's globals (and then in the builtins, which hold neither of the two names
  read on line 215). The lists are the names the source binds: the parameters and
  assigned variables of \<^verbatim>\<open>process\<close>, and the module's imports and its class.
\<close>

definition process_locals :: "string list" where
  "process_locals =
     [''self'', ''inframe'', ''outframe'', ''frame'', ''frameHeight'', ''frameWidth'',
      ''blob'', ''outs'', ''msgbox'', ''t'', ''_'', ''fps'', ''label'']"

definition module_globals :: "string list" where
  "module_globals = [''jevois'', ''cv'', ''np'', ''sys'', ''PyDetectionDNN'']"

definition name_bound :: "string \<Rightarrow> bool" where
  "name_bound n = (n \<in> set process_locals \<or> n \<in> set module_globals)"

text \<open>
  What one call of \<^verbatim>\<open>process\<close> leaves behind when it returns: the effects of
  \<^verbatim>\<open>postprocess\<close> and the shape of the frame given to \<^verbatim>\<open>outframe.sendCv\<close> (the frame with
  the 22 pixel message panel stacked below).
\<close>

record delivery =
  effects :: post
  sent :: frame

text \<open>Lines 216-235: inference (its result \<open>outs\<close> is taken as given) to \<^verbatim>\<open>sendCv\<close>.\<close>

definition deliver :: "detector \<Rightarrow> frame \<Rightarrow> tensor list \<Rightarrow> py_error + delivery" where
  "deliver self fr outs =
     (case postprocess self fr outs of
        Inl e \<Rightarrow> Inl e
      | Inr p \<Rightarrow>
          Inr \<lparr>effects = p,
               sent = \<lparr>frame_height = frame_height fr + 22, frame_width = frame_width fr\<rparr>\<rparr>)"

text \<open>
  \<^verbatim>\<open>process\<close>: \<open>inframe\<close> is the frame \<^verbatim>\<open>inframe.getCvBGR()\<close> returns and \<open>outs\<close> what
  \<^verbatim>\<open>self.net.forward\<close> returns for it. On line 215 the list
  \<^verbatim>\<open>[inpHeight, inpWidth, 1.6]\<close> is evaluated from left to right, before \<^verbatim>\<open>setInput\<close>
  is called and before line 216.
\<close>

definition process :: "detector \<Rightarrow> frame \<Rightarrow> tensor list \<Rightarrow> py_error + delivery" where
  "process self inframe outs =
     (if im_info self then
        (let fr = \<lparr>frame_height = inpHeight self, frame_width = inpWidth self\<rparr> in
         if \<not> name_bound ''inpHeight'' then Inl (NameError ''inpHeight'')
         else if \<not> name_bound ''inpWidth'' then Inl (NameError ''inpWidth'')
         else deliver self fr outs)
      else deliver self inframe outs)"

text \<open>
  The constructor's settings (lines 39-42); the class names read from the names file and
  the two answers of the loaded network are parameters.
\<close>

definition init :: "string list option \<Rightarrow> bool \<Rightarrow> string \<Rightarrow> detector" where
  "init names has_im_info last_type =
     \<lparr>confThreshold = 0.5, nmsThreshold = 0.4, inpWidth = 160, inpHeight = 120,
      classes = names, im_info = has_im_info, lastLayer_type = last_type\<rparr>"

section \<open>The decoders\<close>

subsection \<open>What the loops accumulate\<close>

lemma foldl_append_detection:
  "classIds (foldl append_detection acc cs) = classIds acc @ map fst cs"
  "confidences (foldl append_detection acc cs) = confidences acc @ map (fst \<circ> snd) cs"
  "boxes (foldl append_detection acc cs) = boxes acc @ map (snd \<circ> snd) cs"
  by (induction cs arbitrary: acc) (auto simp: append_detection_def split: prod.splits)

text \<open>
  When every iteration that returns appends \<open>g d\<close> if \<open>P d\<close> holds and nothing otherwise,
  a loop that ends without an exception has appended \<open>g d\<close> for the rows that satisfy \<open>P\<close>,
  in order.
\<close>

lemma decode_rows_filter:
  assumes "\<And>d r. f d = Inr r \<Longrightarrow> r = (if P d then Some (g d) else None)"
    and "decode_rows f ds acc = Inr acc'"
  shows "acc' = foldl append_detection acc (map g (filter P ds))"
  using assms(2)
proof (induction ds arbitrary: acc)
  case Nil
  then show ?case by simp
next
  case (Cons d ds)
  show ?case
  proof (cases "f d")
    case (Inl e)
    with Cons.prems show ?thesis by simp
  next
    case (Inr r)
    from assms(1)[OF Inr] have r: "r = (if P d then Some (g d) else None)" .
    show ?thesis
    proof (cases "P d")
      case True
      with r Inr Cons.prems have "decode_rows f ds (append_detection acc (g d)) = Inr acc'"
        by simp
      from Cons.IH[OF this] True show ?thesis by simp
    next
      case False
      with r Inr Cons.prems have "decode_rows f ds acc = Inr acc'" by simp
      from Cons.IH[OF this] False show ?thesis by simp
    qed
  qed
qed

lemma decode_outs_filter:
  assumes "\<And>d r. f d = Inr r \<Longrightarrow> r = (if P d then Some (g d) else None)"
    and "decode_outs f outs acc = Inr acc'"
  shows "acc' = foldl append_detection acc (map g (filter P (concat outs)))"
  using assms(2)
proof (induction outs arbitrary: acc)
  case Nil
  then show ?case by simp
next
  case (Cons out outs)
  then obtain acc1 where 1: "decode_rows f out acc = Inr acc1"
    and 2: "decode_outs f outs acc1 = Inr acc'"
    by (auto split: sum.splits)
  from decode_rows_filter[of f P g, OF assms(1) 1]
  have "acc1 = foldl append_detection acc (map g (filter P out))" by simp
  with Cons.IH[OF 2] show ?case by simp
qed

subsection \<open>One iteration of each branch\<close>

lemma rcnn_detection_Inr:
  "rcnn_detection thr d = Inr r \<Longrightarrow>
   r = (if thr < d ! 2 then
          Some (py_int (d ! 1) - 1, d ! 2,
            \<lparr>box_left = py_int (d ! 3), box_top = py_int (d ! 4),
             box_width = py_int (d ! 5) - py_int (d ! 3) + 1,
             box_height = py_int (d ! 6) - py_int (d ! 4) + 1\<rparr>)
        else None)"
  by (auto simp: rcnn_detection_def Let_def split: if_splits)

lemma ssd_detection_Inr:
  "ssd_detection fw fh thr d = Inr r \<Longrightarrow>
   r = (if thr < d ! 2 then
          Some (py_int (d ! 1) - 1, d ! 2,
            \<lparr>box_left = py_int (d ! 3 * real fw), box_top = py_int (d ! 4 * real fh),
             box_width = py_int (d ! 5 * real fw) - py_int (d ! 3 * real fw) + 1,
             box_height = py_int (d ! 6 * real fh) - py_int (d ! 4 * real fh) + 1\<rparr>)
        else None)"
  by (auto simp: ssd_detection_def Let_def split: if_splits)

lemma region_detection_Inr:
  "region_detection fw fh thr d = Inr r \<Longrightarrow>
   r = (if thr < drop 5 d ! argmax (drop 5 d) then
          Some (int (argmax (drop 5 d)), drop 5 d ! argmax (drop 5 d),
            \<lparr>box_left = py_int (real_of_int (py_int (d ! 0 * real fw))
                          - real_of_int (py_int (d ! 2 * real fw)) / 2),
             box_top = py_int (real_of_int (py_int (d ! 1 * real fh))
                          - real_of_int (py_int (d ! 3 * real fh)) / 2),
             box_width = py_int (d ! 2 * real fw),
             box_height = py_int (d ! 3 * real fh)\<rparr>)
        else None)"
  by (auto simp: region_detection_def Let_def split: if_splits)

text \<open>The branch that produced a result of \<open>decode\<close>.\<close>

lemma decode_cases:
  assumes "decode self fr outs = Inr (Some acc)"
  obtains
    (rcnn) "im_info self"
      "decode_outs (rcnn_detection (confThreshold self)) outs no_detections = Inr acc"
  | (ssd) "\<not> im_info self" "lastLayer_type self = ''DetectionOutput''"
      "decode_outs (ssd_detection (frame_width fr) (frame_height fr) (confThreshold self)) outs
         no_detections = Inr acc"
  | (region) "\<not> im_info self" "lastLayer_type self \<noteq> ''DetectionOutput''"
      "lastLayer_type self = ''Region''"
      "decode_outs (region_detection (frame_width fr) (frame_height fr) (confThreshold self)) outs
         no_detections = Inr acc"
  using assms
  by (auto simp: decode_def Let_def map_sum_def split: if_splits sum.splits)

subsection \<open>Runs on concrete tensors\<close>

text \<open>
  A 640 by 480 frame and, for each branch, a tensor with a row above the threshold 0.5
  and a row at or below it.
\<close>

lemma rcnn_run:
  "decode (init None True ''Softmax'') \<lparr>frame_height = 480, frame_width = 640\<rparr>
     [[[0, 5, 0.9, 10, 20, 30, 40], [0, 3, 0.5, 1, 2, 3, 4]]] =
   Inr (Some \<lparr>classIds = [4], confidences = [0.9],
     boxes = [\<lparr>box_left = 10, box_top = 20, box_width = 21, box_height = 21\<rparr>]\<rparr>)"
  by (simp add: init_def decode_def rcnn_detection_def py_int_def append_detection_def
      no_detections_def)

lemma ssd_run:
  "decode (init None False ''DetectionOutput'') \<lparr>frame_height = 480, frame_width = 640\<rparr>
     [[[0, 5, 0.9, 0.1, 0.2, 0.5, 0.6], [0, 3, 0.5, 0.1, 0.2, 0.3, 0.4]]] =
   Inr (Some \<lparr>classIds = [4], confidences = [0.9],
     boxes = [\<lparr>box_left = 64, box_top = 96, box_width = 257, box_height = 193\<rparr>]\<rparr>)"
  by (simp add: init_def decode_def ssd_detection_def py_int_def append_detection_def
      no_detections_def)

lemma region_run:
  "decode (init None False ''Region'') \<lparr>frame_height = 480, frame_width = 640\<rparr>
     [[[0.5, 0.5, 0.2, 0.2, 0, 0.1, 0.8, 0.05], [0.5, 0.5, 0.2, 0.2, 0, 0.5, 0.3, 0.2]]] =
   Inr (Some \<lparr>classIds = [1], confidences = [0.8],
     boxes = [\<lparr>box_left = 256, box_top = 192, box_width = 128, box_height = 96\<rparr>]\<rparr>)"
  by (simp add: init_def decode_def region_detection_def py_int_def append_detection_def
      no_detections_def)

subsection \<open>The confidence filter\<close>

text \<open>
  Claim C5. Whatever branch decodes the tensors, every confidence in the decoded lists
  is strictly greater than \<^verbatim>\<open>self.confThreshold\<close>: a row whose confidence is equal to
  or below the threshold contributes no detection.
\<close>

theorem decode_confidence_above_threshold:
  assumes "decode self fr outs = Inr (Some acc)"
  shows "\<forall>c \<in> set (confidences acc). confThreshold self < c"
  using assms
proof (cases rule: decode_cases)
  case rcnn
  from decode_outs_filter[OF rcnn_detection_Inr rcnn(2)]
  show ?thesis by (auto simp: foldl_append_detection no_detections_def)
next
  case ssd
  from decode_outs_filter[OF ssd_detection_Inr ssd(3)]
  show ?thesis by (auto simp: foldl_append_detection no_detections_def)
next
  case region
  from decode_outs_filter[OF region_detection_Inr region(4)]
  show ?thesis by (auto simp: foldl_append_detection no_detections_def)
qed

theorem decode_confidence_above_threshold_witness:
  "decode (init None True ''Softmax'') \<lparr>frame_height = 480, frame_width = 640\<rparr>
     [[[0, 5, 0.9, 10, 20, 30, 40], [0, 3, 0.5, 1, 2, 3, 4]]] =
   Inr (Some \<lparr>classIds = [4], confidences = [0.9],
     boxes = [\<lparr>box_left = 10, box_top = 20, box_width = 21, box_height = 21\<rparr>]\<rparr>)
   \<and> list_all (\<lambda>c. confThreshold (init None True ''Softmax'') < c) [0.9]
   \<and> list_all (\<lambda>c. confThreshold (init None False ''DetectionOutput'') < c) [0.9]
   \<and> list_all (\<lambda>c. confThreshold (init None False ''Region'') < c) [0.8]"
  using decode_confidence_above_threshold[OF rcnn_run]
    decode_confidence_above_threshold[OF ssd_run]
    decode_confidence_above_threshold[OF region_run]
    rcnn_run
  by simp

subsection \<open>Class ids in the first two branches\<close>

lemma rcnn_zero_run:
  "decode (init None True ''Softmax'') \<lparr>frame_height = 480, frame_width = 640\<rparr>
     [[[0, 0, 0.9, 10, 20, 30, 40]], [[0, 5, 0.8, 1, 2, 3, 4], [0, 7, 0.3, 1, 2, 3, 4]]] =
   Inr (Some \<lparr>classIds = [- 1, 4], confidences = [0.9, 0.8],
     boxes = [\<lparr>box_left = 10, box_top = 20, box_width = 21, box_height = 21\<rparr>,
              \<lparr>box_left = 1, box_top = 2, box_width = 3, box_height = 3\<rparr>]\<rparr>)"
  by (simp add: init_def decode_def rcnn_detection_def py_int_def append_detection_def
      no_detections_def)

text \<open>
  On rows of at least seven entries neither of the two loop bodies raises, so the loops
  of the first two branches run to their end.
\<close>

lemma decode_rows_returns:
  "\<forall>d \<in> set ds. \<exists>r. f d = Inr r \<Longrightarrow> \<exists>acc'. decode_rows f ds acc = Inr acc'"
proof (induction ds arbitrary: acc)
  case Nil
  then show ?case by simp
next
  case (Cons d ds)
  then obtain r where r: "f d = Inr r" by auto
  from Cons.prems have rest: "\<forall>d \<in> set ds. \<exists>r. f d = Inr r" by simp
  show ?case
  proof (cases r)
    case None
    with r Cons.IH[OF rest, of acc] show ?thesis by simp
  next
    case (Some c)
    with r Cons.IH[OF rest, of "append_detection acc c"] show ?thesis by simp
  qed
qed

lemma decode_outs_returns:
  "\<forall>d \<in> set (concat outs). \<exists>r. f d = Inr r \<Longrightarrow> \<exists>acc'. decode_outs f outs acc = Inr acc'"
proof (induction outs arbitrary: acc)
  case Nil
  then show ?case by simp
next
  case (Cons out outs)
  from Cons.prems have "\<forall>d \<in> set out. \<exists>r. f d = Inr r" by simp
  from decode_rows_returns[OF this, of acc]
  obtain acc1 where 1: "decode_rows f out acc = Inr acc1" by blast
  from Cons.prems have "\<forall>d \<in> set (concat outs). \<exists>r. f d = Inr r" by simp
  from Cons.IH[OF this, of acc1] 1 show ?case by simp
qed

lemma rcnn_detection_returns: "7 \<le> length d \<Longrightarrow> \<exists>r. rcnn_detection thr d = Inr r"
  by (simp add: rcnn_detection_def Let_def)

lemma ssd_detection_returns: "7 \<le> length d \<Longrightarrow> \<exists>r. ssd_detection fw fh thr d = Inr r"
  by (simp add: ssd_detection_def Let_def)

lemma decode_returns:
  assumes "im_info self \<or> lastLayer_type self = ''DetectionOutput''"
    and "\<forall>d \<in> set (concat outs). 7 \<le> length d"
  shows "\<exists>acc. decode self fr outs = Inr (Some acc)"
proof (cases "im_info self")
  case True
  from assms(2) have "\<forall>d \<in> set (concat outs). \<exists>r. rcnn_detection (confThreshold self) d = Inr r"
    by (simp add: rcnn_detection_returns)
  from decode_outs_returns[OF this, of no_detections] True
  show ?thesis by (auto simp: decode_def)
next
  case False
  from assms(2) have "\<forall>d \<in> set (concat outs).
      \<exists>r. ssd_detection (frame_width fr) (frame_height fr) (confThreshold self) d = Inr r"
    by (simp add: ssd_detection_returns)
  from decode_outs_returns[OF this, of no_detections] False assms(1)
  show ?thesis by (auto simp: decode_def)
qed

lemma decode_classIds:
  assumes "decode self fr outs = Inr (Some acc)"
    and "im_info self \<or> lastLayer_type self = ''DetectionOutput''"
  shows "classIds acc =
           map (\<lambda>d. py_int (d ! 1) - 1) (filter (\<lambda>d. confThreshold self < d ! 2) (concat outs))"
  using assms(1)
proof (cases rule: decode_cases)
  case rcnn
  from decode_outs_filter[OF rcnn_detection_Inr rcnn(2)]
  show ?thesis by (simp add: foldl_append_detection no_detections_def)
next
  case ssd
  from decode_outs_filter[OF ssd_detection_Inr ssd(3)]
  show ?thesis by (simp add: foldl_append_detection no_detections_def)
next
  case region
  with assms(2) show ?thesis by simp
qed

text \<open>A \<^verbatim>\<open>DetectionOutput\<close> tensor with the raw class ids 0, 5 and 7.\<close>

lemma ssd_background_run:
  "decode (init None False ''DetectionOutput'') \<lparr>frame_height = 480, frame_width = 640\<rparr>
     [[[0, 0, 0.9, 0.1, 0.2, 0.5, 0.6]], [[0, 5, 0.8, 0.5, 0.5, 0.75, 0.75], [0, 7, 0.3, 0.1, 0.2, 0.3, 0.4]]] =
   Inr (Some \<lparr>classIds = [- 1, 4], confidences = [0.9, 0.8],
     boxes = [\<lparr>box_left = 64, box_top = 96, box_width = 257, box_height = 193\<rparr>,
              \<lparr>box_left = 320, box_top = 240, box_width = 161, box_height = 121\<rparr>]\<rparr>)"
  by (simp add: init_def decode_def ssd_detection_def py_int_def append_detection_def
      no_detections_def)

text \<open>
  Claim C4. In the \<^verbatim>\<open>im_info\<close> branch and in the \<^verbatim>\<open>DetectionOutput\<close> branch the class ids
  decoded are, in order, \<^verbatim>\<open>int(detection[1]) - 1\<close> of the rows whose confidence exceeds the
  threshold; a row whose raw class id is the background label 0 is decoded with
  class id -1, never with 0. And the branches do decode: when every row has its seven
  entries, the loops end without an exception, with one class id for each row above the
  threshold.
\<close>

theorem classId_is_raw_minus_one:
  assumes "im_info self \<or> lastLayer_type self = ''DetectionOutput''"
  shows "(\<forall>acc. decode self fr outs = Inr (Some acc) \<longrightarrow>
            classIds acc =
              map (\<lambda>d. py_int (d ! 1) - 1)
                (filter (\<lambda>d. confThreshold self < d ! 2) (concat outs))
            \<and> (\<forall>i < length (classIds acc).
                  py_int (filter (\<lambda>d. confThreshold self < d ! 2) (concat outs) ! i ! 1) = 0
                  \<longrightarrow> classIds acc ! i = - 1))
         \<and> ((\<forall>d \<in> set (concat outs). 7 \<le> length d) \<longrightarrow>
              (\<exists>acc. decode self fr outs = Inr (Some acc)
                 \<and> length (classIds acc) =
                     length (filter (\<lambda>d. confThreshold self < d ! 2) (concat outs))))"
proof (intro conjI allI impI)
  fix acc
  assume d: "decode self fr outs = Inr (Some acc)"
  from decode_classIds[OF d assms]
  show c: "classIds acc =
      map (\<lambda>d. py_int (d ! 1) - 1) (filter (\<lambda>d. confThreshold self < d ! 2) (concat outs))" .
  fix i
  assume "i < length (classIds acc)"
    and "py_int (filter (\<lambda>d. confThreshold self < d ! 2) (concat outs) ! i ! 1) = 0"
  with c show "classIds acc ! i = - 1" by simp
next
  assume "\<forall>d \<in> set (concat outs). 7 \<le> length d"
  from decode_returns[OF assms this, of fr]
  obtain acc where d: "decode self fr outs = Inr (Some acc)" by blast
  from decode_classIds[OF d assms] d
  show "\<exists>acc. decode self fr outs = Inr (Some acc)
      \<and> length (classIds acc) =
          length (filter (\<lambda>d. confThreshold self < d ! 2) (concat outs))"
    by auto
qed

theorem classId_is_raw_minus_one_witness:
  "lastLayer_type (init None False ''DetectionOutput'') = ''DetectionOutput''
   \<and> list_all (\<lambda>d. 7 \<le> length d)
        (concat [[[0, 0, 0.9, 0.1, 0.2, 0.5, 0.6]],
                 [[0, 5, 0.8, 0.5, 0.5, 0.75, 0.75], [0, 7, 0.3, 0.1, 0.2, 0.3, 0.4]]])
   \<and> decode (init None False ''DetectionOutput'') \<lparr>frame_height = 480, frame_width = 640\<rparr>
       [[[0, 0, 0.9, 0.1, 0.2, 0.5, 0.6]],
        [[0, 5, 0.8, 0.5, 0.5, 0.75, 0.75], [0, 7, 0.3, 0.1, 0.2, 0.3, 0.4]]] =
     Inr (Some \<lparr>classIds = [- 1, 4], confidences = [0.9, 0.8],
       boxes = [\<lparr>box_left = 64, box_top = 96, box_width = 257, box_height = 193\<rparr>,
                \<lparr>box_left = 320, box_top = 240, box_width = 161, box_height = 121\<rparr>]\<rparr>)
   \<and> [- 1, 4] = map (\<lambda>d. py_int (d ! 1) - 1)
        (filter (\<lambda>d. confThreshold (init None False ''DetectionOutput'') < d ! 2)
          (concat [[[0, 0, 0.9, 0.1, 0.2, 0.5, 0.6]],
                   [[0, 5, 0.8, 0.5, 0.5, 0.75, 0.75], [0, 7, 0.3, 0.1, 0.2, 0.3, 0.4]]]))
   \<and> im_info (init None True ''Softmax'')
   \<and> decode (init None True ''Softmax'') \<lparr>frame_height = 480, frame_width = 640\<rparr>
       [[[0, 0, 0.9, 10, 20, 30, 40]], [[0, 5, 0.8, 1, 2, 3, 4], [0, 7, 0.3, 1, 2, 3, 4]]] =
     Inr (Some \<lparr>classIds = [- 1, 4], confidences = [0.9, 0.8],
       boxes = [\<lparr>box_left = 10, box_top = 20, box_width = 21, box_height = 21\<rparr>,
                \<lparr>box_left = 1, box_top = 2, box_width = 3, box_height = 3\<rparr>]\<rparr>)
   \<and> [- 1, 4] = map (\<lambda>d. py_int (d ! 1) - 1)
        (filter (\<lambda>d. confThreshold (init None True ''Softmax'') < d ! 2)
          (concat [[[0, 0, 0.9, 10, 20, 30, 40]], [[0, 5, 0.8, 1, 2, 3, 4], [0, 7, 0.3, 1, 2, 3, 4]]]))"
proof -
  have s: "im_info (init None False ''DetectionOutput'')
      \<or> lastLayer_type (init None False ''DetectionOutput'') = ''DetectionOutput''"
    and t: "lastLayer_type (init None False ''DetectionOutput'') = ''DetectionOutput''"
    and r: "im_info (init None True ''Softmax'')
      \<or> lastLayer_type (init None True ''Softmax'') = ''DetectionOutput''"
    and i: "im_info (init None True ''Softmax'')"
    by (simp_all add: init_def)
  have w: "list_all (\<lambda>d. 7 \<le> length d)
        (concat [[[0, 0, 0.9, 0.1, 0.2, 0.5, 0.6]],
                 [[0, 5, 0.8, 0.5, 0.5, 0.75, 0.75], [0, 7, 0.3, 0.1, 0.2, 0.3, 0.4]]])"
    by simp
  have 1: "[- 1, 4] = map (\<lambda>d. py_int (d ! 1) - 1)
        (filter (\<lambda>d. confThreshold (init None False ''DetectionOutput'') < d ! 2)
          (concat [[[0, 0, 0.9, 0.1, 0.2, 0.5, 0.6]],
                   [[0, 5, 0.8, 0.5, 0.5, 0.75, 0.75], [0, 7, 0.3, 0.1, 0.2, 0.3, 0.4]]]))"
    using classId_is_raw_minus_one[OF s, THEN conjunct1, rule_format, OF ssd_background_run]
    by simp
  have 2: "[- 1, 4] = map (\<lambda>d. py_int (d ! 1) - 1)
        (filter (\<lambda>d. confThreshold (init None True ''Softmax'') < d ! 2)
          (concat [[[0, 0, 0.9, 10, 20, 30, 40]], [[0, 5, 0.8, 1, 2, 3, 4], [0, 7, 0.3, 1, 2, 3, 4]]]))"
    using classId_is_raw_minus_one[OF r, THEN conjunct1, rule_format, OF rcnn_zero_run]
    by simp
  show ?thesis
    by (intro conjI t w ssd_background_run 1 i rcnn_zero_run 2)
qed

text \<open>
  A class id of -1 passes the assertion of \<^verbatim>\<open>drawPred\<close> and, as a Python index, selects
  the last class name.
\<close>

lemma drawPred_background:
  "cs \<noteq> [] \<Longrightarrow> drawPred (Some cs) (- 1) conf l t r b =
     Inr \<lparr>rect = (l, t, r, b), label_name = Some (last cs), label_percent = conf * 100\<rparr>"
  by (cases cs rule: rev_cases) (auto simp: drawPred_def Let_def nat_add_distrib)

subsection \<open>Degenerate boxes\<close>

text \<open>
  Claim C1, as stated, fails: no branch tests the width or the height it computes. In
  each branch a row above the threshold whose box has a width and height below 1 is
  decoded and appended like any other.
\<close>

theorem degenerate_box_counterexample:
  "decode (init None True ''Softmax'') \<lparr>frame_height = 480, frame_width = 640\<rparr>
     [[[0, 1, 0.9, 10, 10, 5, 5]]] =
   Inr (Some \<lparr>classIds = [0], confidences = [0.9],
     boxes = [\<lparr>box_left = 10, box_top = 10, box_width = - 4, box_height = - 4\<rparr>]\<rparr>)
   \<and> decode (init None False ''DetectionOutput'') \<lparr>frame_height = 480, frame_width = 640\<rparr>
     [[[0, 1, 0.9, 0.5, 0.5, 0.25, 0.25]]] =
   Inr (Some \<lparr>classIds = [0], confidences = [0.9],
     boxes = [\<lparr>box_left = 320, box_top = 240, box_width = - 159, box_height = - 119\<rparr>]\<rparr>)
   \<and> decode (init None False ''Region'') \<lparr>frame_height = 480, frame_width = 640\<rparr>
     [[[0.5, 0.5, 0, 0, 0, 0.9]]] =
   Inr (Some \<lparr>classIds = [0], confidences = [0.9],
     boxes = [\<lparr>box_left = 320, box_top = 240, box_width = 0, box_height = 0\<rparr>]\<rparr>)"
  by (simp add: init_def decode_def rcnn_detection_def ssd_detection_def region_detection_def
      py_int_def append_detection_def no_detections_def)

text \<open>
  Claim C1, amended. Every row whose confidence exceeds the threshold yields a box,
  whatever its geometry: the decoded list has one box per such row. So the decoded
  boxes all have a positive width and height exactly when every such row decodes to
  one: \<^verbatim>\<open>int(left) <= int(right)\<close> and \<^verbatim>\<open>int(top) <= int(bottom)\<close> in the first two branches
  (after scaling by the frame size in the second), a scaled width and height of at
  least 1 in the third.
\<close>

theorem boxes_not_filtered:
  assumes "decode self fr outs = Inr (Some acc)"
  shows "(im_info self \<longrightarrow>
           length (boxes acc) = length (filter (\<lambda>d. confThreshold self < d ! 2) (concat outs))
           \<and> ((\<forall>b \<in> set (boxes acc). 0 < box_width b \<and> 0 < box_height b) \<longleftrightarrow>
              (\<forall>d \<in> set (concat outs). confThreshold self < d ! 2 \<longrightarrow>
                 py_int (d ! 3) \<le> py_int (d ! 5) \<and> py_int (d ! 4) \<le> py_int (d ! 6))))
       \<and> (\<not> im_info self \<and> lastLayer_type self = ''DetectionOutput'' \<longrightarrow>
           length (boxes acc) = length (filter (\<lambda>d. confThreshold self < d ! 2) (concat outs))
           \<and> ((\<forall>b \<in> set (boxes acc). 0 < box_width b \<and> 0 < box_height b) \<longleftrightarrow>
              (\<forall>d \<in> set (concat outs). confThreshold self < d ! 2 \<longrightarrow>
                 py_int (d ! 3 * real (frame_width fr)) \<le> py_int (d ! 5 * real (frame_width fr))
                 \<and> py_int (d ! 4 * real (frame_height fr)) \<le> py_int (d ! 6 * real (frame_height fr)))))
       \<and> (\<not> im_info self \<and> lastLayer_type self = ''Region'' \<longrightarrow>
           length (boxes acc) =
             length (filter (\<lambda>d. confThreshold self < drop 5 d ! argmax (drop 5 d)) (concat outs))
           \<and> ((\<forall>b \<in> set (boxes acc). 0 < box_width b \<and> 0 < box_height b) \<longleftrightarrow>
              (\<forall>d \<in> set (concat outs). confThreshold self < drop 5 d ! argmax (drop 5 d) \<longrightarrow>
                 0 < py_int (d ! 2 * real (frame_width fr))
                 \<and> 0 < py_int (d ! 3 * real (frame_height fr)))))"
  using assms
proof (cases rule: decode_cases)
  case rcnn
  from decode_outs_filter[OF rcnn_detection_Inr rcnn(2)] rcnn(1)
  show ?thesis by (auto simp: foldl_append_detection no_detections_def)
next
  case ssd
  from decode_outs_filter[OF ssd_detection_Inr ssd(3)] ssd(1,2)
  show ?thesis by (auto simp: foldl_append_detection no_detections_def)
next
  case region
  from decode_outs_filter[OF region_detection_Inr region(4)] region(1,2,3)
  show ?thesis by (auto simp: foldl_append_detection no_detections_def)
qed

theorem boxes_not_filtered_witness:
  "decode (init None True ''Softmax'') \<lparr>frame_height = 480, frame_width = 640\<rparr>
     [[[0, 5, 0.9, 10, 20, 30, 40], [0, 3, 0.5, 1, 2, 3, 4]]] =
   Inr (Some \<lparr>classIds = [4], confidences = [0.9],
     boxes = [\<lparr>box_left = 10, box_top = 20, box_width = 21, box_height = 21\<rparr>]\<rparr>)
   \<and> im_info (init None True ''Softmax'')
   \<and> list_all (\<lambda>b. 0 < box_width b \<and> 0 < box_height b)
       [\<lparr>box_left = 10, box_top = 20, box_width = 21, box_height = 21\<rparr>]
   \<and> list_all (\<lambda>d. confThreshold (init None True ''Softmax'') < d ! 2 \<longrightarrow>
         py_int (d ! 3) \<le> py_int (d ! 5) \<and> py_int (d ! 4) \<le> py_int (d ! 6))
       (concat [[[0, 5, 0.9, 10, 20, 30, 40], [0, 3, 0.5, 1, 2, 3, 4]]])
   \<and> decode (init None False ''DetectionOutput'') \<lparr>frame_height = 480, frame_width = 640\<rparr>
     [[[0, 5, 0.9, 0.1, 0.2, 0.5, 0.6], [0, 3, 0.5, 0.1, 0.2, 0.3, 0.4]]] =
   Inr (Some \<lparr>classIds = [4], confidences = [0.9],
     boxes = [\<lparr>box_left = 64, box_top = 96, box_width = 257, box_height = 193\<rparr>]\<rparr>)
   \<and> list_all (\<lambda>d. confThreshold (init None False ''DetectionOutput'') < d ! 2 \<longrightarrow>
         py_int (d ! 3 * real 640) \<le> py_int (d ! 5 * real 640)
         \<and> py_int (d ! 4 * real 480) \<le> py_int (d ! 6 * real 480))
       (concat [[[0, 5, 0.9, 0.1, 0.2, 0.5, 0.6], [0, 3, 0.5, 0.1, 0.2, 0.3, 0.4]]])
   \<and> decode (init None False ''Region'') \<lparr>frame_height = 480, frame_width = 640\<rparr>
     [[[0.5, 0.5, 0.2, 0.2, 0, 0.1, 0.8, 0.05], [0.5, 0.5, 0.2, 0.2, 0, 0.5, 0.3, 0.2]]] =
   Inr (Some \<lparr>classIds = [1], confidences = [0.8],
     boxes = [\<lparr>box_left = 256, box_top = 192, box_width = 128, box_height = 96\<rparr>]\<rparr>)
   \<and> length [\<lparr>box_left = 256, box_top = 192, box_width = 128, box_height = 96\<rparr>] =
       length (filter (\<lambda>d. confThreshold (init None False ''Region'') < drop 5 d ! argmax (drop 5 d))
         (concat [[[0.5, 0.5, 0.2, 0.2, 0, 0.1, 0.8, 0.05], [0.5, 0.5, 0.2, 0.2, 0, 0.5, 0.3, 0.2]]]))"
proof -
  have r: "im_info (init None True ''Softmax'')"
    by (simp add: init_def)
  have p: "list_all (\<lambda>b. 0 < box_width b \<and> 0 < box_height b)
       [\<lparr>box_left = 10, box_top = 20, box_width = 21, box_height = 21\<rparr>]"
    by simp
  have 1: "list_all (\<lambda>d. confThreshold (init None True ''Softmax'') < d ! 2 \<longrightarrow>
         py_int (d ! 3) \<le> py_int (d ! 5) \<and> py_int (d ! 4) \<le> py_int (d ! 6))
       (concat [[[0, 5, 0.9, 10, 20, 30, 40], [0, 3, 0.5, 1, 2, 3, 4]]])"
    using boxes_not_filtered[OF rcnn_run] by (simp add: init_def py_int_def)
  have 2: "list_all (\<lambda>d. confThreshold (init None False ''DetectionOutput'') < d ! 2 \<longrightarrow>
         py_int (d ! 3 * real 640) \<le> py_int (d ! 5 * real 640)
         \<and> py_int (d ! 4 * real 480) \<le> py_int (d ! 6 * real 480))
       (concat [[[0, 5, 0.9, 0.1, 0.2, 0.5, 0.6], [0, 3, 0.5, 0.1, 0.2, 0.3, 0.4]]])"
    using boxes_not_filtered[OF ssd_run] by (simp add: init_def py_int_def)
  have 3: "length [\<lparr>box_left = 256, box_top = 192, box_width = 128, box_height = 96\<rparr>] =
       length (filter (\<lambda>d. confThreshold (init None False ''Region'') < drop 5 d ! argmax (drop 5 d))
         (concat [[[0.5, 0.5, 0.2, 0.2, 0, 0.1, 0.8, 0.05], [0.5, 0.5, 0.2, 0.2, 0, 0.5, 0.3, 0.2]]]))"
    using boxes_not_filtered[OF region_run] by (simp add: init_def)
  show ?thesis
    by (intro conjI rcnn_run ssd_run region_run r p 1 2 3)
qed

subsection \<open>Coordinates in the \<^verbatim>\<open>DetectionOutput\<close> branch\<close>

lemma py_int_nonneg: "0 \<le> x \<Longrightarrow> py_int x = \<lfloor>x\<rfloor>"
  by (simp add: py_int_def)

lemma ssd_fraction_run:
  "decode (init None False ''DetectionOutput'') \<lparr>frame_height = 480, frame_width = 640\<rparr>
     [[[0, 5, 0.9, 0.1015, 0.2, 0.5, 0.6]]] =
   Inr (Some \<lparr>classIds = [4], confidences = [0.9],
     boxes = [\<lparr>box_left = 64, box_top = 96, box_width = 257, box_height = 193\<rparr>]\<rparr>)"
  by (simp add: init_def decode_def ssd_detection_def py_int_def append_detection_def
      no_detections_def)

text \<open>
  Claim C3, as stated, fails: the coordinates are cut with \<^verbatim>\<open>int(...)\<close>, not rounded. With a
  640 by 480 frame and the raw left coordinate 0.1015, the product is 64.96; the code
  gives 64 where rounding gives 65.
\<close>

theorem ssd_round_counterexample:
  "decode (init None False ''DetectionOutput'') \<lparr>frame_height = 480, frame_width = 640\<rparr>
     [[[0, 5, 0.9, 0.1015, 0.2, 0.5, 0.6]]] =
   Inr (Some \<lparr>classIds = [4], confidences = [0.9],
     boxes = [\<lparr>box_left = 64, box_top = 96, box_width = 257, box_height = 193\<rparr>]\<rparr>)
   \<and> round (0.1015 * real 640) = (65 :: int)"
  by (simp add: init_def decode_def ssd_detection_def py_int_def append_detection_def
      no_detections_def round_def)

text \<open>
  Claim C3, amended. In the \<^verbatim>\<open>DetectionOutput\<close> branch the box of every row whose
  confidence exceeds the threshold has the raw coordinates scaled by the frame size
  and truncated toward zero (\<^verbatim>\<open>left = int(rawLeft * frameWidth)\<close>, the vertical ones with
  \<^verbatim>\<open>frameHeight\<close>), \<^verbatim>\<open>width = right - left + 1\<close> and \<^verbatim>\<open>height = bottom - top + 1\<close>; and the
  row of the specification's example decodes to the box and class id given there.
\<close>

theorem ssd_box_truncated:
  "(\<not> im_info self \<and> lastLayer_type self = ''DetectionOutput''
      \<and> decode self fr outs = Inr (Some acc) \<longrightarrow>
    boxes acc =
      map (\<lambda>d. \<lparr>box_left = py_int (d ! 3 * real (frame_width fr)),
                box_top = py_int (d ! 4 * real (frame_height fr)),
                box_width = py_int (d ! 5 * real (frame_width fr))
                            - py_int (d ! 3 * real (frame_width fr)) + 1,
                box_height = py_int (d ! 6 * real (frame_height fr))
                            - py_int (d ! 4 * real (frame_height fr)) + 1\<rparr>)
        (filter (\<lambda>d. confThreshold self < d ! 2) (concat outs)))
   \<and> decode (init None False ''DetectionOutput'') \<lparr>frame_height = 480, frame_width = 640\<rparr>
       [[[0, 5, 0.9, 0.1, 0.2, 0.5, 0.6]]] =
     Inr (Some \<lparr>classIds = [4], confidences = [0.9],
       boxes = [\<lparr>box_left = 64, box_top = 96, box_width = 257, box_height = 193\<rparr>]\<rparr>)"
proof (intro conjI impI)
  assume a: "\<not> im_info self \<and> lastLayer_type self = ''DetectionOutput''
      \<and> decode self fr outs = Inr (Some acc)"
  then have "decode self fr outs = Inr (Some acc)" by simp
  then show "boxes acc =
      map (\<lambda>d. \<lparr>box_left = py_int (d ! 3 * real (frame_width fr)),
                box_top = py_int (d ! 4 * real (frame_height fr)),
                box_width = py_int (d ! 5 * real (frame_width fr))
                            - py_int (d ! 3 * real (frame_width fr)) + 1,
                box_height = py_int (d ! 6 * real (frame_height fr))
                            - py_int (d ! 4 * real (frame_height fr)) + 1\<rparr>)
        (filter (\<lambda>d. confThreshold self < d ! 2) (concat outs))"
  proof (cases rule: decode_cases)
    case rcnn
    with a show ?thesis by simp
  next
    case ssd
    from decode_outs_filter[OF ssd_detection_Inr ssd(3)]
    show ?thesis by (simp add: foldl_append_detection no_detections_def comp_def)
  next
    case region
    with a show ?thesis by simp
  qed
next
  show "decode (init None False ''DetectionOutput'') \<lparr>frame_height = 480, frame_width = 640\<rparr>
       [[[0, 5, 0.9, 0.1, 0.2, 0.5, 0.6]]] =
     Inr (Some \<lparr>classIds = [4], confidences = [0.9],
       boxes = [\<lparr>box_left = 64, box_top = 96, box_width = 257, box_height = 193\<rparr>]\<rparr>)"
    by (simp add: init_def decode_def ssd_detection_def py_int_def append_detection_def
      no_detections_def)
qed

theorem ssd_box_truncated_witness:
  "\<not> im_info (init None False ''DetectionOutput'')
   \<and> lastLayer_type (init None False ''DetectionOutput'') = ''DetectionOutput''
   \<and> decode (init None False ''DetectionOutput'') \<lparr>frame_height = 480, frame_width = 640\<rparr>
       [[[0, 5, 0.9, 0.1015, 0.2, 0.5, 0.6]]] =
     Inr (Some \<lparr>classIds = [4], confidences = [0.9],
       boxes = [\<lparr>box_left = 64, box_top = 96, box_width = 257, box_height = 193\<rparr>]\<rparr>)
   \<and> [\<lparr>box_left = 64, box_top = 96, box_width = 257, box_height = 193\<rparr>] =
       map (\<lambda>d. \<lparr>box_left = py_int (d ! 3 * real 640),
                box_top = py_int (d ! 4 * real 480),
                box_width = py_int (d ! 5 * real 640) - py_int (d ! 3 * real 640) + 1,
                box_height = py_int (d ! 6 * real 480) - py_int (d ! 4 * real 480) + 1\<rparr>)
        (filter (\<lambda>d. 0.5 < d ! 2) (concat [[[0, 5, 0.9, 0.1015, 0.2, 0.5, 0.6]]]))"
  using ssd_box_truncated[of "init None False ''DetectionOutput''"
      "\<lparr>frame_height = 480, frame_width = 640\<rparr>" "[[[0, 5, 0.9, 0.1015, 0.2, 0.5, 0.6]]]"
      "\<lparr>classIds = [4], confidences = [0.9],
       boxes = [\<lparr>box_left = 64, box_top = 96, box_width = 257, box_height = 193\<rparr>]\<rparr>"]
    ssd_fraction_run
  by (simp add: init_def)

subsection \<open>The scores of the \<^verbatim>\<open>Region\<close> branch\<close>

text \<open>\<open>argmax\<close> returns the first position of the greatest element.\<close>

lemma argmax_less: "xs \<noteq> [] \<Longrightarrow> argmax xs < length xs"
  by (induction xs rule: argmax.induct) (auto simp: Let_def)

lemma argmax_greatest: "i < length xs \<Longrightarrow> xs ! i \<le> xs ! argmax xs"
proof (induction xs arbitrary: i rule: argmax.induct)
  case 1
  then show ?case by simp
next
  case (2 x)
  then show ?case by simp
next
  case (3 x y ys)
  show ?case
  proof (cases i)
    case 0
    then show ?thesis by (auto simp: Let_def)
  next
    case (Suc k)
    with "3.prems" have "k < length (y # ys)" by simp
    from "3.IH"[OF this] Suc show ?thesis by (auto simp: Let_def)
  qed
qed

lemma argmax_first: "i < argmax xs \<Longrightarrow> xs ! i < xs ! argmax xs"
proof (induction xs arbitrary: i rule: argmax.induct)
  case 1
  then show ?case by simp
next
  case (2 x)
  then show ?case by simp
next
  case (3 x y ys)
  show ?case
  proof (cases i)
    case 0
    with "3.prems" show ?thesis by (auto simp: Let_def split: if_splits)
  next
    case (Suc k)
    with "3.prems" have "k < argmax (y # ys)" by (auto simp: Let_def split: if_splits)
    from "3.IH"[OF this] Suc "3.prems" show ?thesis by (auto simp: Let_def split: if_splits)
  qed
qed

text \<open>
  What the branch does with a row of more than five entries, and what its loop
  accumulates.
\<close>

lemma region_detection_total:
  assumes "5 < length d"
  shows "region_detection fw fh thr d =
          (if thr < d ! (5 + argmax (drop 5 d)) then
             Inr (Some (int (argmax (drop 5 d)), d ! (5 + argmax (drop 5 d)),
               \<lparr>box_left = py_int (real_of_int (py_int (d ! 0 * real fw))
                             - real_of_int (py_int (d ! 2 * real fw)) / 2),
                box_top = py_int (real_of_int (py_int (d ! 1 * real fh))
                             - real_of_int (py_int (d ! 3 * real fh)) / 2),
                box_width = py_int (d ! 2 * real fw),
                box_height = py_int (d ! 3 * real fh)\<rparr>))
           else Inr None)"
proof -
  from assms have ne: "drop 5 d \<noteq> []" by simp
  from argmax_less[OF ne] have "5 + argmax (drop 5 d) < length d" by simp
  then have "drop 5 d ! argmax (drop 5 d) = d ! (5 + argmax (drop 5 d))" by simp
  with ne show ?thesis by (simp add: region_detection_def Let_def)
qed

lemma decode_region_lists:
  assumes "decode self fr outs = Inr (Some acc)"
    and "\<not> im_info self" and "lastLayer_type self = ''Region''"
  shows "classIds acc =
           map (\<lambda>d. int (argmax (drop 5 d)))
             (filter (\<lambda>d. confThreshold self < drop 5 d ! argmax (drop 5 d)) (concat outs))
       \<and> confidences acc =
           map (\<lambda>d. drop 5 d ! argmax (drop 5 d))
             (filter (\<lambda>d. confThreshold self < drop 5 d ! argmax (drop 5 d)) (concat outs))"
  using assms(1)
proof (cases rule: decode_cases)
  case rcnn
  with assms(2) show ?thesis by simp
next
  case ssd
  with assms(3) show ?thesis by simp
next
  case region
  from decode_outs_filter[OF region_detection_Inr region(4)]
  show ?thesis by (simp add: foldl_append_detection no_detections_def comp_def)
qed

text \<open>
  Claim C2, as stated, fails: the class scores are not read from index 4. On a row laid
  out as the claim has it, four geometry entries followed by the scores 0.1, 0.8, 0.05,
  the greatest score from index 4 on is at position 1, and the code decodes class id 0;
  a row whose greatest score stands at index 4 is decoded from the entries after it
  (here dropped, 0.1 being below the threshold); and a row of four geometry entries and
  one score has an empty slice, on which \<^verbatim>\<open>np.argmax\<close> raises.
\<close>

theorem region_index_4_counterexample:
  "decode (init None False ''Region'') \<lparr>frame_height = 480, frame_width = 640\<rparr>
     [[[0.5, 0.5, 0.2, 0.2, 0.1, 0.8, 0.05]]] =
   Inr (Some \<lparr>classIds = [0], confidences = [0.8],
     boxes = [\<lparr>box_left = 256, box_top = 192, box_width = 128, box_height = 96\<rparr>]\<rparr>)
   \<and> argmax (drop 4 [0.5, 0.5, 0.2, 0.2, 0.1, 0.8, 0.05]) = 1
   \<and> decode (init None False ''Region'') \<lparr>frame_height = 480, frame_width = 640\<rparr>
     [[[0.5, 0.5, 0.2, 0.2, 0.9, 0.1, 0.05]]] = Inr (Some no_detections)
   \<and> argmax (drop 4 [0.5, 0.5, 0.2, 0.2, 0.9, 0.1, 0.05]) = 0
   \<and> decode (init None False ''Region'') \<lparr>frame_height = 480, frame_width = 640\<rparr>
     [[[0.5, 0.5, 0.2, 0.2, 0.9]]] = Inl ValueError"
  by (simp add: init_def decode_def region_detection_def py_int_def append_detection_def
      no_detections_def)

text \<open>
  Claim C2, amended. The branch reads its class scores from \<^verbatim>\<open>detection[5:]\<close>: a row is
  \<^verbatim>\<open>[center_x, center_y, width, height, e, score_0, score_1, ...]\<close>, where the entry \<open>e\<close> at
  index 4 (the objectness score in the output of a Region layer) is not read. For every
  row of more than five entries the class id is the position, counted from index 5, of
  the first greatest score, the confidence is that score, and the row is appended
  exactly when it exceeds the threshold; the decoded class ids and confidences are
  these, in order, for the rows appended.
\<close>

theorem region_classId_argmax_from_5:
  "(5 < length d \<longrightarrow>
      5 + argmax (drop 5 d) < length d
      \<and> (\<forall>i. 5 \<le> i \<and> i < length d \<longrightarrow> d ! i \<le> d ! (5 + argmax (drop 5 d)))
      \<and> (\<forall>i. 5 \<le> i \<and> i < 5 + argmax (drop 5 d) \<longrightarrow> d ! i < d ! (5 + argmax (drop 5 d)))
      \<and> region_detection fw fh thr d =
          (if thr < d ! (5 + argmax (drop 5 d)) then
             Inr (Some (int (argmax (drop 5 d)), d ! (5 + argmax (drop 5 d)),
               \<lparr>box_left = py_int (real_of_int (py_int (d ! 0 * real fw))
                             - real_of_int (py_int (d ! 2 * real fw)) / 2),
                box_top = py_int (real_of_int (py_int (d ! 1 * real fh))
                             - real_of_int (py_int (d ! 3 * real fh)) / 2),
                box_width = py_int (d ! 2 * real fw),
                box_height = py_int (d ! 3 * real fh)\<rparr>))
           else Inr None))
   \<and> (\<not> im_info self \<and> lastLayer_type self = ''Region''
        \<and> decode self fr outs = Inr (Some acc) \<longrightarrow>
      classIds acc =
        map (\<lambda>d. int (argmax (drop 5 d)))
          (filter (\<lambda>d. confThreshold self < drop 5 d ! argmax (drop 5 d)) (concat outs))
      \<and> confidences acc =
        map (\<lambda>d. drop 5 d ! argmax (drop 5 d))
          (filter (\<lambda>d. confThreshold self < drop 5 d ! argmax (drop 5 d)) (concat outs)))"
proof (intro conjI impI)
  assume len: "5 < length d"
  let ?k = "argmax (drop 5 d)"
  from len have ne: "drop 5 d \<noteq> []" by simp
  from argmax_less[OF ne] show k: "5 + ?k < length d" by simp
  then have nth: "drop 5 d ! ?k = d ! (5 + ?k)" by simp
  show "\<forall>i. 5 \<le> i \<and> i < length d \<longrightarrow> d ! i \<le> d ! (5 + ?k)"
  proof (intro allI impI)
    fix i
    assume "5 \<le> i \<and> i < length d"
    then have i: "5 \<le> i" "i < length d" by simp_all
    then have "i - 5 < length (drop 5 d)" by simp
    from argmax_greatest[OF this] i nth show "d ! i \<le> d ! (5 + ?k)" by simp
  qed
  show "\<forall>i. 5 \<le> i \<and> i < 5 + ?k \<longrightarrow> d ! i < d ! (5 + ?k)"
  proof (intro allI impI)
    fix i
    assume "5 \<le> i \<and> i < 5 + ?k"
    then have i: "5 \<le> i" "i < 5 + ?k" by simp_all
    then have "i - 5 < ?k" by simp
    from argmax_first[OF this] i k nth show "d ! i < d ! (5 + ?k)" by simp
  qed
  from region_detection_total[OF len]
  show "region_detection fw fh thr d =
          (if thr < d ! (5 + ?k) then
             Inr (Some (int ?k, d ! (5 + ?k),
               \<lparr>box_left = py_int (real_of_int (py_int (d ! 0 * real fw))
                             - real_of_int (py_int (d ! 2 * real fw)) / 2),
                box_top = py_int (real_of_int (py_int (d ! 1 * real fh))
                             - real_of_int (py_int (d ! 3 * real fh)) / 2),
                box_width = py_int (d ! 2 * real fw),
                box_height = py_int (d ! 3 * real fh)\<rparr>))
           else Inr None)" .
next
  assume a: "\<not> im_info self \<and> lastLayer_type self = ''Region''
        \<and> decode self fr outs = Inr (Some acc)"
  then have d: "decode self fr outs = Inr (Some acc)" and i: "\<not> im_info self"
    and t: "lastLayer_type self = ''Region''" by simp_all
  from decode_region_lists[OF d i t]
  show "classIds acc =
        map (\<lambda>d. int (argmax (drop 5 d)))
          (filter (\<lambda>d. confThreshold self < drop 5 d ! argmax (drop 5 d)) (concat outs))"
    and "confidences acc =
        map (\<lambda>d. drop 5 d ! argmax (drop 5 d))
          (filter (\<lambda>d. confThreshold self < drop 5 d ! argmax (drop 5 d)) (concat outs))"
    by simp_all
qed

theorem region_classId_argmax_from_5_witness:
  "5 < length [0.5, 0.5, 0.2, 0.2, 0, 0.1, 0.8, 0.05 :: real]
   \<and> region_detection 640 480 0.5 [0.5, 0.5, 0.2, 0.2, 0, 0.1, 0.8, 0.05] =
       Inr (Some (1, 0.8,
         \<lparr>box_left = 256, box_top = 192, box_width = 128, box_height = 96\<rparr>))
   \<and> region_detection 640 480 0.5 [0.5, 0.5, 0.2, 0.2, 0, 0.8, 0.8, 0.1] =
       Inr (Some (0, 0.8,
         \<lparr>box_left = 256, box_top = 192, box_width = 128, box_height = 96\<rparr>))
   \<and> region_detection 640 480 0.5 [0.5, 0.5, 0.2, 0.2, 0.9, 0.5, 0.3, 0.2] = Inr None"
proof -
  have 0: "5 < length [0.5, 0.5, 0.2, 0.2, 0, 0.1, 0.8, 0.05 :: real]" by simp
  have 1: "region_detection 640 480 0.5 [0.5, 0.5, 0.2, 0.2, 0, 0.1, 0.8, 0.05] =
       Inr (Some (1, 0.8,
         \<lparr>box_left = 256, box_top = 192, box_width = 128, box_height = 96\<rparr>))"
    using region_classId_argmax_from_5[of "[0.5, 0.5, 0.2, 0.2, 0, 0.1, 0.8, 0.05]" 640 480 "0.5",
        THEN conjunct1]
    by (simp add: py_int_def)
  have 2: "region_detection 640 480 0.5 [0.5, 0.5, 0.2, 0.2, 0, 0.8, 0.8, 0.1] =
       Inr (Some (0, 0.8,
         \<lparr>box_left = 256, box_top = 192, box_width = 128, box_height = 96\<rparr>))"
    using region_classId_argmax_from_5[of "[0.5, 0.5, 0.2, 0.2, 0, 0.8, 0.8, 0.1]" 640 480 "0.5",
        THEN conjunct1]
    by (simp add: py_int_def)
  have 3: "region_detection 640 480 0.5 [0.5, 0.5, 0.2, 0.2, 0.9, 0.5, 0.3, 0.2] = Inr None"
    using region_classId_argmax_from_5[of "[0.5, 0.5, 0.2, 0.2, 0.9, 0.5, 0.3, 0.2]" 640 480 "0.5",
        THEN conjunct1]
    by (simp add: py_int_def)
  show ?thesis by (intro conjI 0 1 2 3)
qed

section \<open>Non-maximum suppression\<close>

text \<open>
  The theorems of this section are about the engine as modelled from the
  specification (the OpenCV function that the code calls is not among the sources).
\<close>

subsection \<open>The overlap measure\<close>

lemma intersection_area_commute: "intersection_area a b = intersection_area b a"
  by (simp add: intersection_area_def min.commute max.commute)

lemma iou_commute: "iou a b = iou b a"
  by (auto simp: iou_def intersection_area_commute add.commute)

subsection \<open>The greedy pass\<close>

text \<open>The survivors so far stay; nothing but candidates of the order is added.\<close>

lemma greedy_prefix: "set kept \<subseteq> set (greedy ov kept order)"
proof (induction order arbitrary: kept)
  case Nil
  then show ?case by simp
next
  case (Cons i order)
  from Cons.IH[of kept] Cons.IH[of "kept @ [i]"] show ?case by auto
qed

lemma greedy_subset: "set (greedy ov kept order) \<subseteq> set kept \<union> set order"
proof (induction order arbitrary: kept)
  case Nil
  then show ?case by simp
next
  case (Cons i order)
  from Cons.IH[of kept] Cons.IH[of "kept @ [i]"] show ?case by auto
qed

text \<open>
  The pass drops candidates and keeps the others in place, so any relation that holds
  between earlier and later candidates of the input holds between those of the output.
\<close>

lemma greedy_sorted_wrt:
  "sorted_wrt R (kept @ order) \<Longrightarrow> sorted_wrt R (greedy ov kept order)"
proof (induction order arbitrary: kept)
  case Nil
  then show ?case by simp
next
  case (Cons i order)
  show ?case
  proof (cases "list_ex (ov i) kept")
    case True
    from Cons.prems have "sorted_wrt R (kept @ order)"
      by (auto simp: sorted_wrt_append)
    from Cons.IH[OF this] True show ?thesis by simp
  next
    case False
    from Cons.prems have "sorted_wrt R ((kept @ [i]) @ order)" by simp
    from Cons.IH[OF this] False show ?thesis by simp
  qed
qed

text \<open>No survivor overlaps a survivor kept before it.\<close>

lemma greedy_separated:
  "sorted_wrt (\<lambda>a b. \<not> ov b a) kept \<Longrightarrow> sorted_wrt (\<lambda>a b. \<not> ov b a) (greedy ov kept order)"
proof (induction order arbitrary: kept)
  case Nil
  then show ?case by simp
next
  case (Cons i order)
  show ?case
  proof (cases "list_ex (ov i) kept")
    case True
    with Cons show ?thesis by simp
  next
    case False
    with Cons.prems have "sorted_wrt (\<lambda>a b. \<not> ov b a) (kept @ [i])"
      by (auto simp: sorted_wrt_append list_ex_iff)
    from Cons.IH[OF this] False show ?thesis by simp
  qed
qed

text \<open>A list in which no candidate overlaps an earlier one is kept whole.\<close>

lemma greedy_keeps_separated:
  "sorted_wrt (\<lambda>a b. \<not> ov b a) (kept @ order) \<Longrightarrow> greedy ov kept order = kept @ order"
proof (induction order arbitrary: kept)
  case Nil
  then show ?case by simp
next
  case (Cons i order)
  from Cons.prems have "\<not> list_ex (ov i) kept"
    by (auto simp: sorted_wrt_append list_ex_iff)
  moreover from Cons.prems have "sorted_wrt (\<lambda>a b. \<not> ov b a) ((kept @ [i]) @ order)" by simp
  from Cons.IH[OF this] have "greedy ov (kept @ [i]) order = kept @ i # order" by simp
  ultimately show ?case by simp
qed

text \<open>A dropped candidate overlaps a survivor that stood before it.\<close>

lemma greedy_suppressed:
  assumes "sorted_wrt R (kept @ order)" and "i \<in> set order"
    and "i \<notin> set (greedy ov kept order)"
  shows "\<exists>k \<in> set (greedy ov kept order). ov i k \<and> R k i"
  using assms
proof (induction order arbitrary: kept)
  case Nil
  then show ?case by simp
next
  case (Cons j order)
  show ?case
  proof (cases "list_ex (ov j) kept")
    case True
    then have res: "greedy ov kept (j # order) = greedy ov kept order" by simp
    show ?thesis
    proof (cases "i = j")
      case True
      from \<open>list_ex (ov j) kept\<close> obtain k where k: "k \<in> set kept" "ov j k"
        by (auto simp: list_ex_iff)
      from Cons.prems(1) k(1) have "R k j" by (auto simp: sorted_wrt_append)
      moreover from k(1) greedy_prefix[of kept ov "j # order"]
      have "k \<in> set (greedy ov kept (j # order))" by blast
      ultimately show ?thesis using k(2) True by blast
    next
      case False
      with Cons.prems(2) have "i \<in> set order" by simp
      moreover from Cons.prems(1) have "sorted_wrt R (kept @ order)"
        by (auto simp: sorted_wrt_append)
      moreover from Cons.prems(3) res have "i \<notin> set (greedy ov kept order)" by simp
      ultimately show ?thesis using Cons.IH res by metis
    qed
  next
    case False
    then have res: "greedy ov kept (j # order) = greedy ov (kept @ [j]) order" by simp
    have "j \<in> set (greedy ov (kept @ [j]) order)"
      using greedy_prefix[of "kept @ [j]" ov order] by auto
    with Cons.prems(3) res have "i \<noteq> j" by auto
    with Cons.prems(2) have "i \<in> set order" by simp
    moreover from Cons.prems(1) have "sorted_wrt R ((kept @ [j]) @ order)" by simp
    moreover from Cons.prems(3) res have "i \<notin> set (greedy ov (kept @ [j]) order)" by simp
    ultimately show ?thesis using Cons.IH res by metis
  qed
qed

subsection \<open>The order of processing\<close>

lemma confidence_order_sorted:
  "sorted_wrt (\<lambda>a b. scores ! b \<le> scores ! a) (confidence_order scores n)"
proof -
  have "sorted (map (\<lambda>i. - (scores ! i)) (confidence_order scores n))"
    by (simp add: confidence_order_def)
  then show ?thesis by (simp add: sorted_map)
qed

lemma set_confidence_order: "set (confidence_order scores n) = {0..<n}"
  by (simp add: confidence_order_def)

lemma sorted_wrt_filter_iff:
  "sorted_wrt R (filter P xs) \<longleftrightarrow> sorted_wrt (\<lambda>a b. P a \<and> P b \<longrightarrow> R a b) xs"
  by (induction xs) auto

lemma confidence_order_stable:
  "sorted_wrt (\<lambda>a b. scores ! a = scores ! b \<longrightarrow> a < b) (confidence_order scores n)"
proof -
  let ?f = "\<lambda>i. - (scores ! i)"
  let ?xs = "confidence_order scores n"
  have "?xs ! i < ?xs ! j" if "i < j" "j < length ?xs" "scores ! (?xs ! i) = scores ! (?xs ! j)" for i j
  proof -
    let ?P = "\<lambda>y. ?f y = ?f (?xs ! i)"
    have eq: "filter ?P ?xs = filter ?P [0..<n]"
      unfolding confidence_order_def by (rule sort_key_stable)
    have "sorted_wrt (<) (filter ?P ?xs)"
      unfolding eq by (rule sorted_wrt_filter) (rule sorted_wrt_upt)
    then have "sorted_wrt (\<lambda>a b. ?P a \<and> ?P b \<longrightarrow> a < b) ?xs"
      by (rule iffD1[OF sorted_wrt_filter_iff])
    with that show ?thesis by (simp add: sorted_wrt_iff_nth_less)
  qed
  then show ?thesis by (simp add: sorted_wrt_iff_nth_less)
qed

subsection \<open>The engine\<close>

lemma NMSBoxes_descending:
  "sorted_wrt (\<lambda>a b. scores ! b \<le> scores ! a) (NMSBoxes bs scores s t)"
  unfolding NMSBoxes_def
  by (rule greedy_sorted_wrt) (simp add: confidence_order_sorted)

lemma NMSBoxes_separated:
  "sorted_wrt (\<lambda>a b. \<not> overlaps bs t b a) (NMSBoxes bs scores s t)"
  unfolding NMSBoxes_def
  by (rule greedy_separated) simp

lemma NMSBoxes_indices:
  "set (NMSBoxes bs scores s t) \<subseteq> {0..<min (length bs) (length scores)}"
  unfolding NMSBoxes_def
  using greedy_subset[of "overlaps bs t" "[]" "confidence_order scores (min (length bs) (length scores))"]
  by (simp add: set_confidence_order)

lemma NMSBoxes_stable:
  "sorted_wrt (\<lambda>a b. scores ! a = scores ! b \<longrightarrow> a < b) (NMSBoxes bs scores s t)"
  unfolding NMSBoxes_def
  by (rule greedy_sorted_wrt) (simp add: confidence_order_stable)

lemma NMSBoxes_never_both:
  assumes "i \<in> set (NMSBoxes bs scores s t)" and "j \<in> set (NMSBoxes bs scores s t)" and "i \<noteq> j"
  shows "iou (bs ! i) (bs ! j) < t"
proof -
  let ?K = "NMSBoxes bs scores s t"
  from assms(1,2) obtain p q where p: "p < length ?K" "?K ! p = i" and q: "q < length ?K" "?K ! q = j"
    by (auto simp: in_set_conv_nth)
  have sep: "\<And>a b. a < b \<Longrightarrow> b < length ?K \<Longrightarrow> iou (bs ! (?K ! b)) (bs ! (?K ! a)) < t"
    using NMSBoxes_separated[of bs t scores s]
    by (simp add: sorted_wrt_iff_nth_less overlaps_def not_le)
  from p q assms(3) have "p \<noteq> q" by auto
  then consider "p < q" | "q < p" by linarith
  then show ?thesis
  proof cases
    case 1
    from sep[OF 1 q(1)] p q show ?thesis by (simp add: iou_commute)
  next
    case 2
    from sep[OF 2 p(1)] p q show ?thesis by simp
  qed
qed

lemma NMSBoxes_suppressed:
  assumes "i < min (length bs) (length scores)" and "i \<notin> set (NMSBoxes bs scores s t)"
  shows "\<exists>k \<in> set (NMSBoxes bs scores s t). t \<le> iou (bs ! i) (bs ! k) \<and> scores ! i \<le> scores ! k"
proof -
  let ?order = "confidence_order scores (min (length bs) (length scores))"
  have "sorted_wrt (\<lambda>a b. scores ! b \<le> scores ! a) ([] @ ?order)"
    by (simp add: confidence_order_sorted)
  moreover from assms(1) have "i \<in> set ?order" by (simp add: set_confidence_order)
  moreover from assms(2) have "i \<notin> set (greedy (overlaps bs t) [] ?order)"
    by (simp add: NMSBoxes_def)
  ultimately have "\<exists>k \<in> set (greedy (overlaps bs t) [] ?order).
      overlaps bs t i k \<and> scores ! i \<le> scores ! k"
    by (rule greedy_suppressed)
  then show ?thesis by (simp add: NMSBoxes_def overlaps_def)
qed

lemma NMSBoxes_pair:
  assumes "cb < ca" and "t \<le> iou a b"
  shows "NMSBoxes [a, b] [ca, cb] s t = [0]" and "NMSBoxes [b, a] [cb, ca] s t = [1]"
  using assms
  by (simp_all add: NMSBoxes_def confidence_order_def overlaps_def iou_commute)

lemma sorted_wrt_upt_nth:
  "sorted_wrt P [0..<m] \<longleftrightarrow> (\<forall>i j. i < j \<longrightarrow> j < m \<longrightarrow> P i j)"
  by (auto simp: sorted_wrt_iff_nth_less)

lemma NMSBoxes_of_survivors:
  assumes K: "K = NMSBoxes bs scores s t"
  shows "NMSBoxes (map ((!) bs) K) (map ((!) scores) K) s t = [0..<length K]"
proof -
  let ?bs = "map ((!) bs) K" and ?sc = "map ((!) scores) K"
  have desc: "\<forall>i j. i < j \<longrightarrow> j < length K \<longrightarrow> scores ! (K ! j) \<le> scores ! (K ! i)"
    using NMSBoxes_descending[of scores bs s t] K by (simp add: sorted_wrt_iff_nth_less)
  have sep: "\<forall>i j. i < j \<longrightarrow> j < length K \<longrightarrow> \<not> overlaps bs t (K ! j) (K ! i)"
    using NMSBoxes_separated[of bs t scores s] K by (simp add: sorted_wrt_iff_nth_less)
  have "sorted (map (\<lambda>i. - (?sc ! i)) [0..<length K])"
    using desc by (simp add: sorted_map sorted_wrt_upt_nth)
  then have order: "confidence_order ?sc (length K) = [0..<length K]"
    unfolding confidence_order_def by (rule sort_key_id_if_sorted)
  have "sorted_wrt (\<lambda>a b. \<not> overlaps ?bs t b a) ([] @ [0..<length K])"
    using sep by (simp add: sorted_wrt_upt_nth overlaps_def)
  then have "greedy (overlaps ?bs t) [] [0..<length K] = [] @ [0..<length K]"
    by (rule greedy_keeps_separated)
  with order show ?thesis by (simp add: NMSBoxes_def)
qed

subsection \<open>Runs on concrete candidates\<close>

text \<open>
  Three boxes of 10 by 10 pixels in a row, each shifted by 5 pixels: neighbours have
  IoU 1/3, the outer two do not intersect.
\<close>

lemma chain_run:
  "NMSBoxes [\<lparr>box_left = 0, box_top = 0, box_width = 10, box_height = 10\<rparr>,
             \<lparr>box_left = 5, box_top = 0, box_width = 10, box_height = 10\<rparr>,
             \<lparr>box_left = 10, box_top = 0, box_width = 10, box_height = 10\<rparr>]
            [0.9, 0.8, 0.7] 0.5 0.3 = [0, 2]"
  by (simp add: NMSBoxes_def confidence_order_def overlaps_def iou_def area_def intersection_area_def)

lemma chain_iou:
  "iou \<lparr>box_left = 5, box_top = 0, box_width = 10, box_height = 10\<rparr>
       \<lparr>box_left = 10, box_top = 0, box_width = 10, box_height = 10\<rparr> = 1 / 3"
  by (simp add: iou_def area_def intersection_area_def)

subsection \<open>Order and suppression\<close>

text \<open>
  Claim C6, as stated, fails in its consequence: of two candidates whose IoU reaches
  the threshold, the one of lower confidence can be the survivor. With the threshold
  0.3 the middle box (confidence 0.8) is dropped for its overlap with the first (0.9);
  the third (0.7) overlaps only the middle one, which was not kept, and survives.
\<close>

theorem NMS_pair_counterexample:
  "NMSBoxes [\<lparr>box_left = 0, box_top = 0, box_width = 10, box_height = 10\<rparr>,
             \<lparr>box_left = 5, box_top = 0, box_width = 10, box_height = 10\<rparr>,
             \<lparr>box_left = 10, box_top = 0, box_width = 10, box_height = 10\<rparr>]
            [0.9, 0.8, 0.7] 0.5 0.3 = [0, 2]
   \<and> (0.3 :: real) \<le> iou \<lparr>box_left = 5, box_top = 0, box_width = 10, box_height = 10\<rparr>
                          \<lparr>box_left = 10, box_top = 0, box_width = 10, box_height = 10\<rparr>
   \<and> [0.9, 0.8, 0.7 :: real] ! 2 < [0.9, 0.8, 0.7] ! 1"
  using chain_run chain_iou by simp

text \<open>
  Claim C6, amended. The engine processes the candidates by descending confidence,
  ties in emission order, and keeps a candidate unless its IoU with an already kept
  box reaches the threshold. Hence: the survivors are listed by descending confidence,
  ties in emission order; two distinct survivors never have an IoU at or above the
  threshold; every dropped candidate has an IoU at or above the threshold with a
  survivor of at least its confidence; and when the input consists of just two
  candidates of different confidence whose IoU reaches the threshold, only the one of
  higher confidence survives, in either input order.
\<close>

theorem NMSBoxes_greedy_consequences:
  "sorted_wrt (\<lambda>i j. scores ! j \<le> scores ! i \<and> (scores ! i = scores ! j \<longrightarrow> i < j))
     (NMSBoxes bs scores s t)
   \<and> (\<forall>i \<in> set (NMSBoxes bs scores s t). \<forall>j \<in> set (NMSBoxes bs scores s t).
        i \<noteq> j \<longrightarrow> iou (bs ! i) (bs ! j) < t)
   \<and> (\<forall>i < min (length bs) (length scores). i \<notin> set (NMSBoxes bs scores s t) \<longrightarrow>
        (\<exists>k \<in> set (NMSBoxes bs scores s t). t \<le> iou (bs ! i) (bs ! k) \<and> scores ! i \<le> scores ! k))
   \<and> (cb < ca \<and> t \<le> iou a b \<longrightarrow>
        NMSBoxes [a, b] [ca, cb] s t = [0] \<and> NMSBoxes [b, a] [cb, ca] s t = [1])"
proof (intro conjI)
  from NMSBoxes_descending[of scores bs s t] NMSBoxes_stable[of scores bs s t]
  show "sorted_wrt (\<lambda>i j. scores ! j \<le> scores ! i \<and> (scores ! i = scores ! j \<longrightarrow> i < j))
     (NMSBoxes bs scores s t)"
    by (simp add: sorted_wrt_iff_nth_less)
next
  show "\<forall>i \<in> set (NMSBoxes bs scores s t). \<forall>j \<in> set (NMSBoxes bs scores s t).
        i \<noteq> j \<longrightarrow> iou (bs ! i) (bs ! j) < t"
    using NMSBoxes_never_both by blast
next
  show "\<forall>i < min (length bs) (length scores). i \<notin> set (NMSBoxes bs scores s t) \<longrightarrow>
        (\<exists>k \<in> set (NMSBoxes bs scores s t). t \<le> iou (bs ! i) (bs ! k) \<and> scores ! i \<le> scores ! k)"
    using NMSBoxes_suppressed by blast
next
  show "cb < ca \<and> t \<le> iou a b \<longrightarrow>
        NMSBoxes [a, b] [ca, cb] s t = [0] \<and> NMSBoxes [b, a] [cb, ca] s t = [1]"
    using NMSBoxes_pair by blast
qed

theorem NMSBoxes_greedy_consequences_witness:
  "NMSBoxes [\<lparr>box_left = 0, box_top = 0, box_width = 10, box_height = 10\<rparr>,
             \<lparr>box_left = 5, box_top = 0, box_width = 10, box_height = 10\<rparr>,
             \<lparr>box_left = 10, box_top = 0, box_width = 10, box_height = 10\<rparr>]
            [0.9, 0.8, 0.7] 0.5 0.3 = [0, 2]
   \<and> (0.7 :: real) < 0.8
   \<and> (0.3 :: real) \<le> iou \<lparr>box_left = 5, box_top = 0, box_width = 10, box_height = 10\<rparr>
                          \<lparr>box_left = 10, box_top = 0, box_width = 10, box_height = 10\<rparr>
   \<and> NMSBoxes [\<lparr>box_left = 5, box_top = 0, box_width = 10, box_height = 10\<rparr>,
               \<lparr>box_left = 10, box_top = 0, box_width = 10, box_height = 10\<rparr>]
              [0.8, 0.7] 0.5 0.3 = [0]
   \<and> NMSBoxes [\<lparr>box_left = 10, box_top = 0, box_width = 10, box_height = 10\<rparr>,
               \<lparr>box_left = 5, box_top = 0, box_width = 10, box_height = 10\<rparr>]
              [0.7, 0.8] 0.5 0.3 = [1]"
  using NMSBoxes_greedy_consequences[of "[0.9, 0.8, 0.7]"
      "[\<lparr>box_left = 0, box_top = 0, box_width = 10, box_height = 10\<rparr>,
        \<lparr>box_left = 5, box_top = 0, box_width = 10, box_height = 10\<rparr>,
        \<lparr>box_left = 10, box_top = 0, box_width = 10, box_height = 10\<rparr>]" "0.5" "0.3"
      "0.7" "0.8"
      "\<lparr>box_left = 5, box_top = 0, box_width = 10, box_height = 10\<rparr>"
      "\<lparr>box_left = 10, box_top = 0, box_width = 10, box_height = 10\<rparr>"]
    chain_run chain_iou
  by simp

subsection \<open>Idempotence\<close>

text \<open>
  Claim C8. Given its own output, the engine returns it unchanged: the same candidates
  in the same order. Any two distinct survivors have an IoU below the threshold.
\<close>

theorem NMSBoxes_idempotent:
  "survivors (fst (survivors bs scores s t)) (snd (survivors bs scores s t)) s t
     = survivors bs scores s t
   \<and> (\<forall>i < length (NMSBoxes bs scores s t). \<forall>j < length (NMSBoxes bs scores s t). i \<noteq> j \<longrightarrow>
        iou (bs ! (NMSBoxes bs scores s t ! i)) (bs ! (NMSBoxes bs scores s t ! j)) < t)"
proof
  define K where "K = NMSBoxes bs scores s t"
  from NMSBoxes_of_survivors[OF K_def]
  show "survivors (fst (survivors bs scores s t)) (snd (survivors bs scores s t)) s t
     = survivors bs scores s t"
    using map_nth[of "map ((!) bs) K"] map_nth[of "map ((!) scores) K"]
    by (simp add: survivors_def Let_def K_def[symmetric])
next
  define K where "K = NMSBoxes bs scores s t"
  have sep: "\<And>i j. i < j \<Longrightarrow> j < length K \<Longrightarrow> iou (bs ! (K ! j)) (bs ! (K ! i)) < t"
    using NMSBoxes_separated[of bs t scores s]
    by (simp add: sorted_wrt_iff_nth_less K_def overlaps_def not_le)
  have "iou (bs ! (K ! i)) (bs ! (K ! j)) < t" if "i < length K" "j < length K" "i \<noteq> j" for i j
  proof (cases "i < j")
    case True
    from sep[OF True that(2)] show ?thesis by (simp add: iou_commute)
  next
    case False
    with that(3) have "j < i" by simp
    from sep[OF this that(1)] show ?thesis .
  qed
  then show "\<forall>i < length (NMSBoxes bs scores s t). \<forall>j < length (NMSBoxes bs scores s t). i \<noteq> j \<longrightarrow>
        iou (bs ! (NMSBoxes bs scores s t ! i)) (bs ! (NMSBoxes bs scores s t ! j)) < t"
    by (simp add: K_def)
qed

theorem NMSBoxes_idempotent_witness:
  "survivors [\<lparr>box_left = 0, box_top = 0, box_width = 10, box_height = 10\<rparr>,
              \<lparr>box_left = 5, box_top = 0, box_width = 10, box_height = 10\<rparr>,
              \<lparr>box_left = 10, box_top = 0, box_width = 10, box_height = 10\<rparr>]
             [0.9, 0.8, 0.7] 0.5 0.3 =
     ([\<lparr>box_left = 0, box_top = 0, box_width = 10, box_height = 10\<rparr>,
       \<lparr>box_left = 10, box_top = 0, box_width = 10, box_height = 10\<rparr>], [0.9, 0.7])
   \<and> survivors [\<lparr>box_left = 0, box_top = 0, box_width = 10, box_height = 10\<rparr>,
                \<lparr>box_left = 10, box_top = 0, box_width = 10, box_height = 10\<rparr>]
               [0.9, 0.7] 0.5 0.3 =
     ([\<lparr>box_left = 0, box_top = 0, box_width = 10, box_height = 10\<rparr>,
       \<lparr>box_left = 10, box_top = 0, box_width = 10, box_height = 10\<rparr>], [0.9, 0.7])"
  using NMSBoxes_idempotent[of
      "[\<lparr>box_left = 0, box_top = 0, box_width = 10, box_height = 10\<rparr>,
        \<lparr>box_left = 5, box_top = 0, box_width = 10, box_height = 10\<rparr>,
        \<lparr>box_left = 10, box_top = 0, box_width = 10, box_height = 10\<rparr>]"
      "[0.9, 0.8, 0.7]" "0.5" "0.3"] chain_run
  by (simp add: survivors_def)

subsection \<open>Suppression across classes\<close>

text \<open>
  Claim C9. The call on line 189 passes the boxes and confidences of all classes at
  once, without the class ids. Two rows of a \<^verbatim>\<open>DetectionOutput\<close> tensor with raw classes
  5 and 8 and nearly the same box decode to candidates of classes 4 and 7 with IoU
  251/257; the engine keeps only the first, and only it is drawn.
\<close>

theorem cross_class_suppression:
  "decode (init None False ''DetectionOutput'') \<lparr>frame_height = 480, frame_width = 640\<rparr>
     [[[0, 5, 0.9, 0.1, 0.2, 0.5, 0.6], [0, 8, 0.8, 0.11, 0.2, 0.5, 0.6]]] =
   Inr (Some \<lparr>classIds = [4, 7], confidences = [0.9, 0.8],
     boxes = [\<lparr>box_left = 64, box_top = 96, box_width = 257, box_height = 193\<rparr>,
              \<lparr>box_left = 70, box_top = 96, box_width = 251, box_height = 193\<rparr>]\<rparr>)
   \<and> iou \<lparr>box_left = 70, box_top = 96, box_width = 251, box_height = 193\<rparr>
         \<lparr>box_left = 64, box_top = 96, box_width = 257, box_height = 193\<rparr> = 251 / 257
   \<and> NMSBoxes [\<lparr>box_left = 64, box_top = 96, box_width = 257, box_height = 193\<rparr>,
               \<lparr>box_left = 70, box_top = 96, box_width = 251, box_height = 193\<rparr>]
              [0.9, 0.8] 0.5 0.4 = [0]
   \<and> postprocess (init None False ''DetectionOutput'') \<lparr>frame_height = 480, frame_width = 640\<rparr>
       [[[0, 5, 0.9, 0.1, 0.2, 0.5, 0.6], [0, 8, 0.8, 0.11, 0.2, 0.5, 0.6]]] =
     Inr \<lparr>logged = [],
          drawn = [\<lparr>rect = (64, 96, 321, 289), label_name = None, label_percent = 90\<rparr>]\<rparr>"
proof (intro conjI)
  show d: "decode (init None False ''DetectionOutput'') \<lparr>frame_height = 480, frame_width = 640\<rparr>
     [[[0, 5, 0.9, 0.1, 0.2, 0.5, 0.6], [0, 8, 0.8, 0.11, 0.2, 0.5, 0.6]]] =
   Inr (Some \<lparr>classIds = [4, 7], confidences = [0.9, 0.8],
     boxes = [\<lparr>box_left = 64, box_top = 96, box_width = 257, box_height = 193\<rparr>,
              \<lparr>box_left = 70, box_top = 96, box_width = 251, box_height = 193\<rparr>]\<rparr>)"
    by (simp add: init_def decode_def ssd_detection_def py_int_def append_detection_def
      no_detections_def)
  show "iou \<lparr>box_left = 70, box_top = 96, box_width = 251, box_height = 193\<rparr>
         \<lparr>box_left = 64, box_top = 96, box_width = 257, box_height = 193\<rparr> = 251 / 257"
    by (simp add: iou_def area_def intersection_area_def)
  show n: "NMSBoxes [\<lparr>box_left = 64, box_top = 96, box_width = 257, box_height = 193\<rparr>,
               \<lparr>box_left = 70, box_top = 96, box_width = 251, box_height = 193\<rparr>]
              [0.9, 0.8] 0.5 0.4 = [0]"
    by (simp add: NMSBoxes_def confidence_order_def overlaps_def iou_def area_def
        intersection_area_def)
  have c: "confThreshold (init None False ''DetectionOutput'') = 0.5"
    "nmsThreshold (init None False ''DetectionOutput'') = 0.4"
    "classes (init None False ''DetectionOutput'') = None"
    by (simp_all add: init_def)
  show "postprocess (init None False ''DetectionOutput'') \<lparr>frame_height = 480, frame_width = 640\<rparr>
       [[[0, 5, 0.9, 0.1, 0.2, 0.5, 0.6], [0, 8, 0.8, 0.11, 0.2, 0.5, 0.6]]] =
     Inr \<lparr>logged = [],
          drawn = [\<lparr>rect = (64, 96, 321, 289), label_name = None, label_percent = 90\<rparr>]\<rparr>"
    using d n by (simp add: postprocess_def c drawPred_def)
qed

section \<open>The frame cycle\<close>

text \<open>
  Claim C7. When the network has no \<^verbatim>\<open>im_info\<close> input and its last layer is neither of
  type \<^verbatim>\<open>DetectionOutput\<close> nor of type \<^verbatim>\<open>Region\<close>, \<^verbatim>\<open>process\<close> returns normally whatever
  the tensors are: the only effect of \<^verbatim>\<open>postprocess\<close> is the error message with the
  layer's type, nothing is decoded, suppressed or drawn, and the frame is sent on with
  its message panel.
\<close>

theorem unknown_layer_type_cycle:
  assumes "\<not> im_info self"
    and "lastLayer_type self \<noteq> ''DetectionOutput''"
    and "lastLayer_type self \<noteq> ''Region''"
  shows "process self inframe outs =
     Inr \<lparr>effects = \<lparr>logged = [''Unknown output layer type: '' @ lastLayer_type self], drawn = []\<rparr>,
          sent = \<lparr>frame_height = frame_height inframe + 22, frame_width = frame_width inframe\<rparr>\<rparr>"
  using assms by (simp add: process_def deliver_def postprocess_def decode_def)

theorem unknown_layer_type_cycle_witness:
  "\<not> im_info (init None False ''Softmax'')
   \<and> lastLayer_type (init None False ''Softmax'') \<noteq> ''DetectionOutput''
   \<and> lastLayer_type (init None False ''Softmax'') \<noteq> ''Region''
   \<and> process (init None False ''Softmax'') \<lparr>frame_height = 480, frame_width = 640\<rparr>
       [[[0, 5, 0.9, 0.1, 0.2, 0.5, 0.6]]] =
     Inr \<lparr>effects = \<lparr>logged = [''Unknown output layer type: Softmax''], drawn = []\<rparr>,
          sent = \<lparr>frame_height = 502, frame_width = 640\<rparr>\<rparr>"
  using unknown_layer_type_cycle[of "init None False ''Softmax''"
      "\<lparr>frame_height = 480, frame_width = 640\<rparr>" "[[[0, 5, 0.9, 0.1, 0.2, 0.5, 0.6]]]"]
  by (simp add: init_def)

text \<open>
  Claim C10. When the network has an \<^verbatim>\<open>im_info\<close> input, \<^verbatim>\<open>process\<close> raises \<^verbatim>\<open>NameError\<close> for
  \<^verbatim>\<open>inpHeight\<close> on line 215, whatever the frame and whatever inference would return: it
  reaches neither \<^verbatim>\<open>forward\<close> nor \<^verbatim>\<open>sendCv\<close>.
\<close>

theorem im_info_branch_NameError:
  assumes "im_info self"
  shows "process self inframe outs = Inl (NameError ''inpHeight'')"
  using assms by (simp add: process_def name_bound_def process_locals_def module_globals_def)

theorem im_info_branch_NameError_witness:
  "im_info (init None True ''DetectionOutput'')
   \<and> process (init None True ''DetectionOutput'') \<lparr>frame_height = 480, frame_width = 640\<rparr>
       [[[0, 5, 0.9, 10, 20, 30, 40]]] = Inl (NameError ''inpHeight'')"
  using im_info_branch_NameError[of "init None True ''DetectionOutput''"
      "\<lparr>frame_height = 480, frame_width = 640\<rparr>" "[[[0, 5, 0.9, 10, 20, 30, 40]]]"]
  by (simp add: init_def)

end
